theory Spec2Isabelle
  imports Complex_Main "HOL-Library.Word"
begin

unbundle bit_operations_syntax

section \<open>Bubble simulation: data model\<close>

text \<open>
  Shallow embedding of \<^verbatim>\<open>src/bubble_sim.c\<close>. The C type \<^verbatim>\<open>float\<close> is modelled
  by \<^typ>\<open>real\<close> with exact arithmetic: every comparison, branch and assignment of the
  source is kept, rounding is not modelled (the velocity response is modelled a second time
  with binary32 rounding, in its own section). \<^verbatim>\<open>uint32_t\<close> is \<^typ>\<open>32 word\<close>, so the
  generator wraps as the C code does. A pointer that the source tests against NULL is an
  \<^typ>\<open>'a option\<close>.
\<close>

record PhysicsBody =
  x :: real
  y :: real
  vx :: real
  vy :: real
  ax :: real
  ay :: real
  radius :: real
  inv_mass :: real
  restitution :: real
  group :: int
  spawn_cooldown :: int
  pop_chance :: real
  popped :: bool

record WorldBounds =
  min_x :: real
  max_x :: real
  min_y :: real
  max_y :: real

definition ph_len2 :: "real \<Rightarrow> real \<Rightarrow> real" where
  "ph_len2 dx dy = dx * dx + dy * dy"

definition body_is_visible_vertical :: "PhysicsBody \<Rightarrow> WorldBounds option \<Rightarrow> bool" where
  "body_is_visible_vertical b bounds =
     (case bounds of
        None \<Rightarrow> True
      | Some bd \<Rightarrow>
          (let top = y b - radius b; bottom = y b + radius b
           in \<not> (bottom < min_y bd \<or> top > max_y bd)))"

subsection \<open>RNG helper\<close>

record SimpleRng =
  state :: "32 word"

definition rng_init :: "32 word \<Rightarrow> SimpleRng" where
  "rng_init seed = \<lparr> state = (if seed \<noteq> 0 then seed else 1) \<rparr>"

text \<open>\<^verbatim>\<open>rng_next\<close> returns the new state and stores it; the model returns both.\<close>

definition rng_next :: "SimpleRng \<Rightarrow> 32 word \<times> SimpleRng" where
  "rng_next rng =
     (let s = state rng * 1664525 + 1013904223 in (s, rng\<lparr> state := s \<rparr>))"

definition rng_next_float01 :: "SimpleRng \<Rightarrow> real \<times> SimpleRng" where
  "rng_next_float01 rng =
     (let (w, rng') = rng_next rng
      in (real (unat (w AND 0x00FFFFFF)) / real (unat (0x01000000 :: 32 word)), rng'))"

section \<open>Physics\<close>

subsection \<open>One body: integration, walls, cooldown (first loop of \<^verbatim>\<open>physics_step\<close>)\<close>

text \<open>Lines 100-107: acceleration and gravity, then the position from the new velocity.\<close>

definition integrate_motion :: "real \<Rightarrow> real \<Rightarrow> PhysicsBody \<Rightarrow> PhysicsBody" where
  "integrate_motion dt gravity_y b =
     (if inv_mass b > 0 \<and> \<not> popped b then
        (let b1 = b\<lparr> vy := vy b + (ay b + gravity_y) * dt \<rparr>;
             b2 = b1\<lparr> vx := vx b1 + ax b1 * dt \<rparr>;
             b3 = b2\<lparr> x := x b2 + vx b2 * dt \<rparr>
         in b3\<lparr> y := y b3 + vy b3 * dt \<rparr>)
      else b)"

text \<open>Lines 110-119: horizontal walls only.\<close>

definition wall_collisions :: "WorldBounds option \<Rightarrow> PhysicsBody \<Rightarrow> PhysicsBody" where
  "wall_collisions bounds b =
     (case bounds of
        None \<Rightarrow> b
      | Some bd \<Rightarrow>
          (let r = radius b in
           if x b - r < min_x bd then
             (let b1 = b\<lparr> x := min_x bd + r \<rparr>
              in if vx b1 < 0 then b1\<lparr> vx := - vx b1 * restitution b1 \<rparr> else b1)
           else if x b + r > max_x bd then
             (let b1 = b\<lparr> x := max_x bd - r \<rparr>
              in if vx b1 > 0 then b1\<lparr> vx := - vx b1 * restitution b1 \<rparr> else b1)
           else b))"

text \<open>Lines 122-124.\<close>

definition decrement_cooldown :: "PhysicsBody \<Rightarrow> PhysicsBody" where
  "decrement_cooldown b =
     (if spawn_cooldown b > 0 then b\<lparr> spawn_cooldown := spawn_cooldown b - 1 \<rparr> else b)"

definition integrate_body :: "real \<Rightarrow> real \<Rightarrow> WorldBounds option \<Rightarrow> PhysicsBody \<Rightarrow> PhysicsBody" where
  "integrate_body dt gravity_y bounds b =
     decrement_cooldown (wall_collisions bounds (integrate_motion dt gravity_y b))"

subsection \<open>One pair (body of the inner loop, lines 135-224)\<close>

text \<open>
  Lines 146-166. The result is the collision normal and the penetration depth, or
  \<open>None\<close> where the source leaves the iteration because the circles do not overlap.
\<close>

definition pair_contact :: "PhysicsBody \<Rightarrow> PhysicsBody \<Rightarrow> (real \<times> real \<times> real) option" where
  "pair_contact a b =
     (let dx0 = x b - x a;
          dy0 = y b - y a;
          r_sum = radius a + radius b;
          dist2_0 = ph_len2 dx0 dy0;
          (dx, dy, dist2) =
            (if dist2_0 \<le> 0.00001 then (0.001, 0, ph_len2 0.001 0) else (dx0, dy0, dist2_0))
      in if dist2 > r_sum * r_sum then None
         else
           (let dist = sqrt dist2;
                penetration = r_sum - dist
            in if penetration \<le> 0 then None
               else Some (dx / dist, dy / dist, penetration)))"

text \<open>Lines 176-187: positional correction proportional to inverse mass.\<close>

definition positional_correction ::
  "real \<Rightarrow> real \<Rightarrow> real \<Rightarrow> PhysicsBody \<Rightarrow> PhysicsBody \<Rightarrow> PhysicsBody \<times> PhysicsBody" where
  "positional_correction nx ny penetration a b =
     (let inv_ma = inv_mass a;
          inv_mb = inv_mass b;
          inv_sum = inv_ma + inv_mb;
          move_a = (inv_ma / inv_sum) * penetration;
          move_b = (inv_mb / inv_sum) * penetration;
          a' = (if inv_ma > 0 then a\<lparr> x := x a - nx * move_a, y := y a - ny * move_a \<rparr> else a);
          b' = (if inv_mb > 0 then b\<lparr> x := x b + nx * move_b, y := y b + ny * move_b \<rparr> else b)
      in (a', b'))"

text \<open>Lines 190-192: relative velocity along the normal.\<close>

definition vel_norm :: "real \<Rightarrow> real \<Rightarrow> PhysicsBody \<Rightarrow> PhysicsBody \<Rightarrow> real" where
  "vel_norm nx ny a b =
     (let rvx = vx b - vx a; rvy = vy b - vy a in rvx * nx + rvy * ny)"

text \<open>Lines 198-214: combined restitution, impulse scalar, velocity update.\<close>

definition impulse_response ::
  "real \<Rightarrow> real \<Rightarrow> PhysicsBody \<Rightarrow> PhysicsBody \<Rightarrow> PhysicsBody \<times> PhysicsBody" where
  "impulse_response nx ny a b =
     (let inv_ma = inv_mass a;
          inv_mb = inv_mass b;
          inv_sum = inv_ma + inv_mb;
          e = (restitution a + restitution b) * 0.5;
          j_impulse = (- (1 + e) * vel_norm nx ny a b) / inv_sum;
          ix = j_impulse * nx;
          iy = j_impulse * ny;
          a' = (if inv_ma > 0 then a\<lparr> vx := vx a - ix * inv_ma, vy := vy a - iy * inv_ma \<rparr> else a);
          b' = (if inv_mb > 0 then b\<lparr> vx := vx b + ix * inv_mb, vy := vy b + iy * inv_mb \<rparr> else b)
      in (a', b'))"

text \<open>
  Lines 217-224. The \<^verbatim>\<open>&&\<close> of the source short-circuits: the generator is called only
  when \<^verbatim>\<open>avg_pop > 0.0f\<close>.
\<close>

definition pop_logic ::
  "PhysicsBody \<Rightarrow> PhysicsBody \<Rightarrow> SimpleRng option \<Rightarrow> PhysicsBody \<times> PhysicsBody \<times> SimpleRng option" where
  "pop_logic a b rng =
     (case rng of
        None \<Rightarrow> (a, b, None)
      | Some r \<Rightarrow>
          (let avg_pop = (pop_chance a + pop_chance b) * 0.5 in
           if avg_pop > 0 then
             (let (u, r') = rng_next_float01 r in
              if u < avg_pop then
                (if radius a \<le> radius b then (a\<lparr> popped := True \<rparr>, b, Some r')
                 else (a, b\<lparr> popped := True \<rparr>, Some r'))
              else (a, b, Some r'))
           else (a, b, Some r)))"

text \<open>
  The whole body of the inner loop on the two bodies \<^verbatim>\<open>a = &bodies[i]\<close> and
  \<^verbatim>\<open>b = &bodies[j]\<close>; every \<^verbatim>\<open>continue\<close> returns the state reached so far.
  \<open>vis_a\<close> is computed by the outer loop, before the inner loop starts.
\<close>

definition resolve_pair ::
  "WorldBounds option \<Rightarrow> bool \<Rightarrow> PhysicsBody \<Rightarrow> PhysicsBody \<Rightarrow> SimpleRng option
     \<Rightarrow> PhysicsBody \<times> PhysicsBody \<times> SimpleRng option" where
  "resolve_pair bounds vis_a a b rng =
     (if popped b then (a, b, rng)
      else
        (let vis_b = body_is_visible_vertical b bounds in
         if \<not> vis_a \<and> \<not> vis_b then (a, b, rng)
         else if spawn_cooldown a > 0 \<or> spawn_cooldown b > 0 then (a, b, rng)
         else
           (case pair_contact a b of
              None \<Rightarrow> (a, b, rng)
            | Some (nx, ny, penetration) \<Rightarrow>
                if inv_mass a + inv_mass b \<le> 0 then (a, b, rng)
                else
                  (let (a1, b1) = positional_correction nx ny penetration a b in
                   if vel_norm nx ny a1 b1 > 0 then (a1, b1, rng)
                   else
                     (let (a2, b2) = impulse_response nx ny a1 b1
                      in pop_logic a2 b2 rng)))))"

subsection \<open>The two loops of \<^verbatim>\<open>physics_step\<close>\<close>

text \<open>
  The array is a list and \<^verbatim>\<open>count\<close> the number of its elements the loops visit; the
  source requires \<open>count \<le> length bodies\<close>. A \<^verbatim>\<open>for\<close> loop over an index range is a
  \<^const>\<open>fold\<close> over that range.
\<close>

definition integrate_loop ::
  "nat \<Rightarrow> real \<Rightarrow> real \<Rightarrow> WorldBounds option \<Rightarrow> PhysicsBody list \<Rightarrow> PhysicsBody list" where
  "integrate_loop count dt gravity_y bounds bodies =
     fold (\<lambda>i bs. bs[i := integrate_body dt gravity_y bounds (bs ! i)]) [0..<count] bodies"

definition collide_pair ::
  "WorldBounds option \<Rightarrow> bool \<Rightarrow> nat \<Rightarrow> nat \<Rightarrow> PhysicsBody list \<times> SimpleRng option
     \<Rightarrow> PhysicsBody list \<times> SimpleRng option" where
  "collide_pair bounds vis_a i j st =
     (let (bodies, rng) = st;
          (a', b', rng') = resolve_pair bounds vis_a (bodies ! i) (bodies ! j) rng
      in (bodies[i := a', j := b'], rng'))"

definition collide_from ::
  "WorldBounds option \<Rightarrow> nat \<Rightarrow> nat \<Rightarrow> PhysicsBody list \<times> SimpleRng option
     \<Rightarrow> PhysicsBody list \<times> SimpleRng option" where
  "collide_from bounds count i st =
     (let a = fst st ! i in
      if popped a then st
      else
        (let vis_a = body_is_visible_vertical a bounds
         in fold (collide_pair bounds vis_a i) [i + 1..<count] st))"

definition collide_loop ::
  "WorldBounds option \<Rightarrow> nat \<Rightarrow> PhysicsBody list \<times> SimpleRng option
     \<Rightarrow> PhysicsBody list \<times> SimpleRng option" where
  "collide_loop bounds count st = fold (collide_from bounds count) [0..<count] st"

definition physics_step ::
  "PhysicsBody list option \<Rightarrow> nat \<Rightarrow> real \<Rightarrow> real \<Rightarrow> WorldBounds option \<Rightarrow> SimpleRng option
     \<Rightarrow> PhysicsBody list option \<times> SimpleRng option" where
  "physics_step bodies count dt gravity_y bounds rng =
     (if dt \<le> 0 then (bodies, rng)
      else
        (case bodies of
           None \<Rightarrow> (bodies, rng)
         | Some bs \<Rightarrow>
             if count = 0 then (bodies, rng)
             else
               (let bs1 = integrate_loop count dt gravity_y bounds bs;
                    (bs2, rng2) = collide_loop bounds count (bs1, rng)
                in (Some bs2, rng2))))"

section \<open>Single-precision arithmetic of the velocity response\<close>

text \<open>
  The definitions above compute with exact reals. Where rounding decides a property of the
  velocity response, the same lines of the source are modelled a second time in the
  arithmetic of the C type \<^verbatim>\<open>float\<close> (IEEE 754 binary32): every operation of the source
  is followed by one rounding to the nearest binary32 value, ties to even. Overflow and
  subnormal results are not modelled; the values computed below stay in the normal range.
\<close>

text \<open>Rounding to the nearest integer, a tie to the even one.\<close>

definition round_even :: "real \<Rightarrow> int" where
  "round_even t =
     (let f = \<lfloor>t\<rfloor>; d = t - of_int f
      in if d < 1 / 2 then f else if 1 / 2 < d then f + 1 else if even f then f else f + 1)"

text \<open>
  The binary32 value nearest to a real: the significand has 24 bits, so a value between
  \<open>2 ^ e\<close> and \<open>2 ^ (e + 1)\<close> is rounded to a multiple of \<open>2 ^ (e - 23)\<close>.
\<close>

definition fl32 :: "real \<Rightarrow> real" where
  "fl32 v =
     (if v = 0 then 0
      else (let q = 2 powr (of_int \<lfloor>log 2 \<bar>v\<bar>\<rfloor> - 23)
            in of_int (round_even (v / q)) * q))"

text \<open>\<^verbatim>\<open>ph_len2\<close> in binary32.\<close>

definition ph_len2_f32 :: "real \<Rightarrow> real \<Rightarrow> real" where
  "ph_len2_f32 dx dy = fl32 (fl32 (dx * dx) + fl32 (dy * dy))"

text \<open>Lines 146-166 in binary32; \<^verbatim>\<open>sqrtf\<close> is the correctly rounded square root.\<close>

definition pair_contact_f32 :: "PhysicsBody \<Rightarrow> PhysicsBody \<Rightarrow> (real \<times> real \<times> real) option" where
  "pair_contact_f32 a b =
     (let dx0 = fl32 (x b - x a);
          dy0 = fl32 (y b - y a);
          r_sum = fl32 (radius a + radius b);
          dist2_0 = ph_len2_f32 dx0 dy0;
          (dx, dy, dist2) =
            (if dist2_0 \<le> fl32 0.00001 then (fl32 0.001, 0, ph_len2_f32 (fl32 0.001) 0)
             else (dx0, dy0, dist2_0))
      in if dist2 > fl32 (r_sum * r_sum) then None
         else
           (let dist = fl32 (sqrt dist2);
                penetration = fl32 (r_sum - dist)
            in if penetration \<le> 0 then None
               else Some (fl32 (dx / dist), fl32 (dy / dist), penetration)))"

text \<open>Lines 190-192 in binary32.\<close>

definition vel_norm_f32 :: "real \<Rightarrow> real \<Rightarrow> PhysicsBody \<Rightarrow> PhysicsBody \<Rightarrow> real" where
  "vel_norm_f32 nx ny a b =
     (let rvx = fl32 (vx b - vx a); rvy = fl32 (vy b - vy a)
      in fl32 (fl32 (rvx * nx) + fl32 (rvy * ny)))"

text \<open>Lines 198-214 in binary32.\<close>

definition impulse_response_f32 ::
  "real \<Rightarrow> real \<Rightarrow> PhysicsBody \<Rightarrow> PhysicsBody \<Rightarrow> PhysicsBody \<times> PhysicsBody" where
  "impulse_response_f32 nx ny a b =
     (let inv_ma = inv_mass a;
          inv_mb = inv_mass b;
          inv_sum = fl32 (inv_ma + inv_mb);
          e = fl32 (fl32 (restitution a + restitution b) * 0.5);
          j0 = fl32 (- fl32 (1 + e) * vel_norm_f32 nx ny a b);
          j_impulse = fl32 (j0 / inv_sum);
          ix = fl32 (j_impulse * nx);
          iy = fl32 (j_impulse * ny);
          a' = (if inv_ma > 0
                then a\<lparr> vx := fl32 (vx a - fl32 (ix * inv_ma)),
                        vy := fl32 (vy a - fl32 (iy * inv_ma)) \<rparr>
                else a);
          b' = (if inv_mb > 0
                then b\<lparr> vx := fl32 (vx b + fl32 (ix * inv_mb)),
                        vy := fl32 (vy b + fl32 (iy * inv_mb)) \<rparr>
                else b)
      in (a', b'))"

section \<open>Bubble sim app\<close>

definition MAX_BODIES :: nat where
  "MAX_BODIES = 48"

definition GROUP_COUNT :: nat where
  "GROUP_COUNT = 3"

definition SPAWN_COOLDOWN_FRAMES :: int where
  "SPAWN_COOLDOWN_FRAMES = 10"

text \<open>
  The fields of \<^verbatim>\<open>BubbleGroupConfig\<close> carry the prefix \<open>cfg_\<close>, since a body has fields
  of the same names. The display name and the GUI handles of \<^verbatim>\<open>BubbleApp\<close> take no part
  in the simulation and are left out.
\<close>

record BubbleGroupConfig =
  cfg_count :: int
  cfg_radius :: real
  cfg_rise_speed :: real
  cfg_restitution :: real
  cfg_pop_chance :: real

record BubbleApp =
  bodies :: "PhysicsBody list"
  body_count :: nat
  bounds :: WorldBounds
  gravity_y :: real
  groups :: "BubbleGroupConfig list"
  rng :: SimpleRng

text \<open>
  \<^verbatim>\<open>bubble_respawn_body\<close> receives a pointer into \<^verbatim>\<open>app->bodies\<close>; the model receives the
  index. The three draws are three statements of the source and happen in this order.
\<close>

definition bubble_respawn_body :: "BubbleApp \<Rightarrow> nat \<Rightarrow> BubbleApp" where
  "bubble_respawn_body app i =
     (let b = bodies app ! i;
          cfg = groups app ! nat (group b);
          r = radius b;
          (u1, rng1) = rng_next_float01 (rng app);
          new_x = (min_x (bounds app) + r)
                    + u1 * ((max_x (bounds app) - r) - (min_x (bounds app) + r));
          y_base = max_y (bounds app) + r + 40;
          (u2, rng2) = rng_next_float01 rng1;
          new_y = y_base + u2 * 20;
          (u3, rng3) = rng_next_float01 rng2;
          jitter = (u3 - 0.5) * cfg_rise_speed cfg * 0.2;
          b' = b\<lparr> x := new_x, y := new_y, vx := jitter, vy := - cfg_rise_speed cfg,
                  ax := 0, ay := 0, spawn_cooldown := SPAWN_COOLDOWN_FRAMES, popped := False \<rparr>
      in app\<lparr> bodies := (bodies app)[i := b'], rng := rng3 \<rparr>)"

text \<open>\<^verbatim>\<open>bubble_app_init_groups\<close>: the default configuration of the three groups.\<close>

definition bubble_app_init_groups :: "BubbleGroupConfig list" where
  "bubble_app_init_groups =
     [\<lparr> cfg_count = 22, cfg_radius = 3, cfg_rise_speed = 60, cfg_restitution = 0.8,
        cfg_pop_chance = 1 \<rparr>,
      \<lparr> cfg_count = 10, cfg_radius = 8, cfg_rise_speed = 11, cfg_restitution = 0.15,
        cfg_pop_chance = 0.10 \<rparr>,
      \<lparr> cfg_count = 4, cfg_radius = 16, cfg_rise_speed = 4, cfg_restitution = 0.05,
        cfg_pop_chance = 0.10 \<rparr>]"

text \<open>Lines 749-754 of the run loop: respawn the popped bodies.\<close>

definition respawn_if_popped :: "nat \<Rightarrow> BubbleApp \<Rightarrow> BubbleApp" where
  "respawn_if_popped i app =
     (if popped (bodies app ! i) then bubble_respawn_body app i else app)"

definition respawn_popped_pass :: "BubbleApp \<Rightarrow> BubbleApp" where
  "respawn_popped_pass app = fold respawn_if_popped [0..<body_count app] app"

text \<open>Lines 757-762 of the run loop: respawn the bodies that floated off the top.\<close>

definition respawn_if_offtop :: "nat \<Rightarrow> BubbleApp \<Rightarrow> BubbleApp" where
  "respawn_if_offtop i app =
     (let b = bodies app ! i in
      if y b + radius b < min_y (bounds app) - 20 then bubble_respawn_body app i else app)"

definition respawn_offtop_pass :: "BubbleApp \<Rightarrow> BubbleApp" where
  "respawn_offtop_pass app = fold respawn_if_offtop [0..<body_count app] app"

text \<open>Lines 748-762: the two respawn loops of one tick, in the order of the run loop.\<close>

definition lifecycle_pass :: "BubbleApp \<Rightarrow> BubbleApp" where
  "lifecycle_pass app = respawn_offtop_pass (respawn_popped_pass app)"

section \<open>Specification vocabulary and concrete inputs\<close>

text \<open>
  The fields that \<^verbatim>\<open>physics_step\<close> is to leave alone: a body \<open>b'\<close> keeps the frame of
  \<open>b\<close> when the five configuration fields agree and the popped flag has not been cleared.
\<close>

definition frame_kept :: "PhysicsBody \<Rightarrow> PhysicsBody \<Rightarrow> bool" where
  "frame_kept b b' \<longleftrightarrow>
     radius b' = radius b \<and> inv_mass b' = inv_mass b \<and> restitution b' = restitution b
     \<and> group b' = group b \<and> pop_chance b' = pop_chance b \<and> (popped b \<longrightarrow> popped b')"

text \<open>
  A dynamic body as \<^verbatim>\<open>bubble_app_build_bodies\<close> creates it (inverse mass 1, no
  acceleration), out of cooldown, with the given position, velocity, radius and pop chance.
\<close>

definition body_at :: "real \<Rightarrow> real \<Rightarrow> real \<Rightarrow> real \<Rightarrow> real \<Rightarrow> real \<Rightarrow> PhysicsBody" where
  "body_at px py pvx pvy r pc =
     \<lparr> x = px, y = py, vx = pvx, vy = pvy, ax = 0, ay = 0, radius = r, inv_mass = 1,
       restitution = 0.8, group = 0, spawn_cooldown = 0, pop_chance = pc, popped = False \<rparr>"

text \<open>
  Two overlapping bodies of radius 5, centres (60, 30) and (63, 34), with mean restitution
  0.75, whose relative velocity is almost tangential. Every field is a binary32 value.
\<close>

definition grazing_a :: PhysicsBody where
  "grazing_a = (body_at 60 30 0 (- 60) 5 0)\<lparr> restitution := 0.75 \<rparr>"

definition grazing_b :: PhysicsBody where
  "grazing_b = (body_at 63 34 4 (- 63 - 1 / 2 ^ 18) 5 0)\<lparr> restitution := 0.75 \<rparr>"

text \<open>The screen interior that \<^verbatim>\<open>bubble_sim_app\<close> sets up (lines 704-707).\<close>

definition arena :: WorldBounds where
  "arena = \<lparr> min_x = 0, max_x = 127, min_y = 0, max_y = 63 \<rparr>"

definition app_with :: "PhysicsBody list \<Rightarrow> BubbleApp" where
  "app_with bs =
     \<lparr> bodies = bs, body_count = length bs, bounds = arena, gravity_y = 0,
       groups = bubble_app_init_groups, rng = rng_init 1 \<rparr>"

section \<open>Random generator\<close>

lemma unat_mask24_less: "unat ((w :: 32 word) AND 0x00FFFFFF) < 16777216"
proof -
  have "unat (w AND 0x00FFFFFF) \<le> unat (0x00FFFFFF :: 32 word)"
    by (rule word_and_le1 [THEN word_le_nat_alt [THEN iffD1]])
  then show ?thesis by simp
qed

lemma mask24_unit_interval:
  "0 \<le> real (unat ((w :: 32 word) AND 0x00FFFFFF)) / real (unat (0x01000000 :: 32 word))
   \<and> real (unat (w AND 0x00FFFFFF)) / real (unat (0x01000000 :: 32 word)) < 1"
proof -
  have "real (unat (w AND 0x00FFFFFF)) < real 16777216"
    using unat_mask24_less [of w] by (simp only: of_nat_less_iff)
  moreover have "real (unat (0x01000000 :: 32 word)) = real 16777216"
    by simp
  ultimately show ?thesis
    by (simp only: divide_less_eq_1_pos of_nat_0_le_iff divide_nonneg_nonneg)
qed

text \<open>
  C8. For every generator state, \<^verbatim>\<open>rng_next_float01\<close> returns the low 24 bits of the
  value of \<^verbatim>\<open>rng_next\<close> divided by \<open>0x01000000\<close>, leaves the generator in the state
  \<^verbatim>\<open>rng_next\<close> leaves it in, and the returned value lies in the half-open interval from
  0 to 1.
\<close>

theorem rng_next_float01_spec:
  "fst (rng_next_float01 r) = real (unat (fst (rng_next r) AND 0x00FFFFFF)) / 16777216
   \<and> snd (rng_next_float01 r) = snd (rng_next r)
   \<and> 0 \<le> fst (rng_next_float01 r) \<and> fst (rng_next_float01 r) < 1"
proof -
  have "fst (rng_next_float01 r) =
          real (unat (fst (rng_next r) AND 0x00FFFFFF)) / real (unat (0x01000000 :: 32 word))"
    by (simp add: rng_next_float01_def split_beta)
  moreover have "real (unat (0x01000000 :: 32 word)) = 16777216"
    by simp
  moreover have "snd (rng_next_float01 r) = snd (rng_next r)"
    by (simp add: rng_next_float01_def split_beta)
  ultimately show ?thesis
    using mask24_unit_interval [of "fst (rng_next r)"] by metis
qed

section \<open>Resolution of one pair\<close>

lemma rng_next_float01_range:
  "0 \<le> fst (rng_next_float01 r)" "fst (rng_next_float01 r) < 1"
  using mask24_unit_interval [of "fst (rng_next r)"]
  by (simp_all add: rng_next_float01_def split_beta)

lemma pair_contact_SomeD:
  assumes "pair_contact a b = Some (nx, ny, pen)"
  shows "nx * nx + ny * ny = 1" and "0 < pen"
proof -
  define dx0 where "dx0 = x b - x a"
  define dy0 where "dy0 = y b - y a"
  define deg where "deg \<longleftrightarrow> ph_len2 dx0 dy0 \<le> 0.00001"
  define dx where "dx = (if deg then 0.001 else dx0)"
  define dy where "dy = (if deg then 0 else dy0)"
  define dist2 where "dist2 = (if deg then ph_len2 0.001 0 else ph_len2 dx0 dy0)"
  have d2: "dist2 = dx * dx + dy * dy"
    by (simp add: dist2_def dx_def dy_def ph_len2_def)
  have pos: "0 < dist2"
    by (simp add: dist2_def deg_def ph_len2_def)
  from assms have *: "nx = dx / sqrt dist2" "ny = dy / sqrt dist2"
    "pen = radius a + radius b - sqrt dist2" "0 < pen"
    by (auto simp: pair_contact_def Let_def dx_def dy_def dist2_def deg_def dx0_def dy0_def
        split: if_splits)
  show "0 < pen" by fact
  have "nx * nx + ny * ny = (dx * dx + dy * dy) / (sqrt dist2 * sqrt dist2)"
    by (simp add: * add_divide_distrib)
  also have "\<dots> = dist2 / dist2" using pos d2 by simp
  also have "\<dots> = 1" using pos by simp
  finally show "nx * nx + ny * ny = 1" .
qed

lemma pair_contact_offset:
  assumes "pair_contact a b = Some (nx, ny, pen)"
    and "0.00001 < ph_len2 (x b - x a) (y b - y a)"
  shows "x b - x a = nx * (radius a + radius b - pen)"
    and "y b - y a = ny * (radius a + radius b - pen)"
    and "pen < radius a + radius b"
proof -
  define dist where "dist = sqrt (ph_len2 (x b - x a) (y b - y a))"
  have pos: "0 < dist" using assms(2) by (simp add: dist_def)
  from assms have *: "nx = (x b - x a) / dist" "ny = (y b - y a) / dist"
    "pen = radius a + radius b - dist"
    by (auto simp: pair_contact_def Let_def dist_def split: if_splits)
  show "x b - x a = nx * (radius a + radius b - pen)"
    using pos by (simp add: *)
  show "y b - y a = ny * (radius a + radius b - pen)"
    using pos by (simp add: *)
  show "pen < radius a + radius b"
    using pos by (simp add: *)
qed

lemma positional_correction_keeps [simp]:
  "vx (fst (positional_correction nx ny pen a b)) = vx a"
  "vy (fst (positional_correction nx ny pen a b)) = vy a"
  "vx (snd (positional_correction nx ny pen a b)) = vx b"
  "vy (snd (positional_correction nx ny pen a b)) = vy b"
  "inv_mass (fst (positional_correction nx ny pen a b)) = inv_mass a"
  "inv_mass (snd (positional_correction nx ny pen a b)) = inv_mass b"
  "restitution (fst (positional_correction nx ny pen a b)) = restitution a"
  "restitution (snd (positional_correction nx ny pen a b)) = restitution b"
  "radius (fst (positional_correction nx ny pen a b)) = radius a"
  "radius (snd (positional_correction nx ny pen a b)) = radius b"
  "pop_chance (fst (positional_correction nx ny pen a b)) = pop_chance a"
  "pop_chance (snd (positional_correction nx ny pen a b)) = pop_chance b"
  "popped (fst (positional_correction nx ny pen a b)) = popped a"
  "popped (snd (positional_correction nx ny pen a b)) = popped b"
  "group (fst (positional_correction nx ny pen a b)) = group a"
  "group (snd (positional_correction nx ny pen a b)) = group b"
  by (simp_all add: positional_correction_def Let_def)

lemma impulse_response_keeps [simp]:
  "x (fst (impulse_response nx ny a b)) = x a"
  "y (fst (impulse_response nx ny a b)) = y a"
  "x (snd (impulse_response nx ny a b)) = x b"
  "y (snd (impulse_response nx ny a b)) = y b"
  "inv_mass (fst (impulse_response nx ny a b)) = inv_mass a"
  "inv_mass (snd (impulse_response nx ny a b)) = inv_mass b"
  "restitution (fst (impulse_response nx ny a b)) = restitution a"
  "restitution (snd (impulse_response nx ny a b)) = restitution b"
  "radius (fst (impulse_response nx ny a b)) = radius a"
  "radius (snd (impulse_response nx ny a b)) = radius b"
  "pop_chance (fst (impulse_response nx ny a b)) = pop_chance a"
  "pop_chance (snd (impulse_response nx ny a b)) = pop_chance b"
  "popped (fst (impulse_response nx ny a b)) = popped a"
  "popped (snd (impulse_response nx ny a b)) = popped b"
  "group (fst (impulse_response nx ny a b)) = group a"
  "group (snd (impulse_response nx ny a b)) = group b"
  by (simp_all add: impulse_response_def Let_def)

lemma pop_logic_keeps:
  assumes "pop_logic a b r = (a', b', r')"
  shows "x a' = x a" "y a' = y a" "vx a' = vx a" "vy a' = vy a"
    "x b' = x b" "y b' = y b" "vx b' = vx b" "vy b' = vy b"
  using assms
  by (auto simp: pop_logic_def Let_def split_beta split: option.splits if_splits)

lemma vel_norm_positional_correction [simp]:
  "vel_norm nx ny (fst (positional_correction mx my pen a b))
     (snd (positional_correction mx my pen a b)) = vel_norm nx ny a b"
  by (simp add: vel_norm_def)

text \<open>The path of a pair that the source does not skip.\<close>

lemma resolve_pair_resolved:
  assumes "\<not> popped b" "vis_a \<or> body_is_visible_vertical b bd"
    "spawn_cooldown a \<le> 0" "spawn_cooldown b \<le> 0"
    "pair_contact a b = Some (nx, ny, pen)" "0 < inv_mass a + inv_mass b"
  shows "resolve_pair bd vis_a a b r =
     (let (a1, b1) = positional_correction nx ny pen a b in
      if vel_norm nx ny a b > 0 then (a1, b1, r)
      else (let (a2, b2) = impulse_response nx ny a1 b1 in pop_logic a2 b2 r))"
  using assms
  by (auto simp: resolve_pair_def Let_def split_beta)

subsection \<open>Positional correction and impulse\<close>

lemma sqrt_25: "sqrt 25 = 5"
  using real_sqrt_abs [of 5] by simp

lemma pair_contact_example:
  "pair_contact (body_at 60 30 v1 w1 5 p1) (body_at 65 30 v2 w2 5 p2) = Some (1, 0, 5)"
  by (simp add: pair_contact_def body_at_def ph_len2_def Let_def sqrt_25)

text \<open>
  One iteration of the inner loop on a pair that it does not skip, whose circles overlap
  with a centre distance above the degenerate guard: each body moves along the normal by
  its share of the penetration, and right after the iteration the centres are at least
  the sum of the radii apart.
\<close>

lemma resolve_pair_separates:
  assumes "\<not> popped b" "vis_a \<or> body_is_visible_vertical b bd"
    "spawn_cooldown a \<le> 0" "spawn_cooldown b \<le> 0"
    and contact: "pair_contact a b = Some (nx, ny, pen)"
    and nondeg: "0.00001 < ph_len2 (x b - x a) (y b - y a)"
    and inv: "0 \<le> inv_mass a" "0 \<le> inv_mass b" "0 < inv_mass a + inv_mass b"
  shows "case resolve_pair bd vis_a a b r of (a', b', r') \<Rightarrow>
           x a' = x a - nx * (inv_mass a / (inv_mass a + inv_mass b) * pen)
         \<and> y a' = y a - ny * (inv_mass a / (inv_mass a + inv_mass b) * pen)
         \<and> x b' = x b + nx * (inv_mass b / (inv_mass a + inv_mass b) * pen)
         \<and> y b' = y b + ny * (inv_mass b / (inv_mass a + inv_mass b) * pen)
         \<and> radius a + radius b \<le> sqrt (ph_len2 (x b' - x a') (y b' - y a'))"
proof -
  define s where "s = inv_mass a + inv_mass b"
  define R where "R = radius a + radius b"
  obtain a1 b1 where pc: "positional_correction nx ny pen a b = (a1, b1)"
    by (cases "positional_correction nx ny pen a b")
  obtain a' b' r' where res: "resolve_pair bd vis_a a b r = (a', b', r')"
    by (cases "resolve_pair bd vis_a a b r") auto
  have a1: "x a1 = x a - nx * (inv_mass a / s * pen)" "y a1 = y a - ny * (inv_mass a / s * pen)"
    using pc inv(1) by (auto simp: positional_correction_def Let_def s_def)
  have b1: "x b1 = x b + nx * (inv_mass b / s * pen)" "y b1 = y b + ny * (inv_mass b / s * pen)"
    using pc inv(2) by (auto simp: positional_correction_def Let_def s_def)
  have pos: "x a' = x a1 \<and> y a' = y a1 \<and> x b' = x b1 \<and> y b' = y b1"
  proof (cases "0 < vel_norm nx ny a b")
    case True
    then show ?thesis
      using res pc resolve_pair_resolved [OF assms(1-5) inv(3), of r] by simp
  next
    case False
    obtain a2 b2 where ir: "impulse_response nx ny a1 b1 = (a2, b2)"
      by (cases "impulse_response nx ny a1 b1")
    have "pop_logic a2 b2 r = (a', b', r')"
      using False res pc ir resolve_pair_resolved [OF assms(1-5) inv(3), of r] by simp
    from pop_logic_keeps(1,2,5,6) [OF this] impulse_response_keeps(1-4) [of nx ny a1 b1]
    show ?thesis by (simp add: ir)
  qed
  have unit: "nx * nx + ny * ny = 1" and "0 < pen"
    using pair_contact_SomeD [OF contact] by simp_all
  have off: "x b - x a = nx * (R - pen)" "y b - y a = ny * (R - pen)" "pen < R"
    using pair_contact_offset [OF contact nondeg] by (simp_all add: R_def)
  have share: "inv_mass a / s * pen + inv_mass b / s * pen = pen"
    using inv(3) by (simp add: s_def flip: distrib_right add_divide_distrib)
  have "x b1 - x a1 = (x b - x a) + nx * (inv_mass a / s * pen + inv_mass b / s * pen)"
    by (simp add: a1 b1 algebra_simps)
  also have "\<dots> = nx * (R - pen) + nx * pen"
    by (simp only: share off(1))
  also have "\<dots> = nx * R"
    by (simp add: algebra_simps)
  finally have dx: "x b1 - x a1 = nx * R" .
  have "y b1 - y a1 = (y b - y a) + ny * (inv_mass a / s * pen + inv_mass b / s * pen)"
    by (simp add: a1 b1 algebra_simps)
  also have "\<dots> = ny * (R - pen) + ny * pen"
    by (simp only: share off(2))
  also have "\<dots> = ny * R"
    by (simp add: algebra_simps)
  finally have dy: "y b1 - y a1 = ny * R" .
  have "ph_len2 (x b1 - x a1) (y b1 - y a1) = (nx * nx + ny * ny) * (R * R)"
    by (simp add: ph_len2_def dx dy algebra_simps)
  then have "ph_len2 (x b1 - x a1) (y b1 - y a1) = R * R"
    by (simp add: unit)
  moreover have "0 < R" using \<open>0 < pen\<close> off(3) by simp
  ultimately have "sqrt (ph_len2 (x b1 - x a1) (y b1 - y a1)) = R"
    by simp
  then show ?thesis
    using res a1 b1 pos by (simp add: s_def R_def)
qed

lemma impulse_response_vel_norm:
  assumes inv: "0 \<le> inv_mass a" "0 \<le> inv_mass b" "0 < inv_mass a + inv_mass b"
    and unit: "nx * nx + ny * ny = 1"
    and ir: "impulse_response nx ny a b = (a2, b2)"
  shows "vel_norm nx ny a2 b2 = - ((restitution a + restitution b) * 0.5) * vel_norm nx ny a b"
proof -
  define s where "s = inv_mass a + inv_mass b"
  define e where "e = (restitution a + restitution b) * 0.5"
  define vn where "vn = vel_norm nx ny a b"
  define j where "j = (- (1 + e) * vn) / s"
  have s: "0 < s" using inv(3) by (simp add: s_def)
  have a2: "vx a2 = vx a - j * nx * inv_mass a" "vy a2 = vy a - j * ny * inv_mass a"
    using ir inv(1) by (auto simp: impulse_response_def Let_def j_def e_def vn_def s_def)
  have b2: "vx b2 = vx b + j * nx * inv_mass b" "vy b2 = vy b + j * ny * inv_mass b"
    using ir inv(2) by (auto simp: impulse_response_def Let_def j_def e_def vn_def s_def)
  have "vel_norm nx ny a2 b2 = vn + j * s * (nx * nx + ny * ny)"
    by (simp add: vel_norm_def a2 b2 vn_def s_def algebra_simps)
  also have "\<dots> = vn + j * s" by (simp add: unit)
  also have "j * s = - (1 + e) * vn" using s by (simp add: j_def)
  also have "vn + - (1 + e) * vn = - e * vn" by (simp add: algebra_simps)
  finally show ?thesis by (simp add: e_def vn_def)
qed



section \<open>The pop decision\<close>

lemma pop_logic_certain:
  assumes "pop_chance a = 1" "pop_chance b = 1"
  shows "pop_logic a b (Some r) =
     (if radius a \<le> radius b then (a\<lparr> popped := True \<rparr>, b, Some (snd (rng_next_float01 r)))
      else (a, b\<lparr> popped := True \<rparr>, Some (snd (rng_next_float01 r))))"
  using assms rng_next_float01_range(2) [of r]
  by (simp add: pop_logic_def Let_def split_beta)

lemma pop_logic_rng:
  "snd (snd (pop_logic a b (Some r))) =
     Some (if 0 < (pop_chance a + pop_chance b) * 0.5 then snd (rng_next_float01 r) else r)"
  by (simp add: pop_logic_def Let_def split_beta)

lemma pair_contact_example_6_5:
  "pair_contact (body_at 60 30 v1 w1 6 p1) (body_at 65 30 v2 w2 5 p2) = Some (1, 0, 6)"
  by (simp add: pair_contact_def body_at_def ph_len2_def Let_def sqrt_25)

lemma body_at_simps [simp]:
  "x (body_at px py pvx pvy r pc) = px"
  "y (body_at px py pvx pvy r pc) = py"
  "vx (body_at px py pvx pvy r pc) = pvx"
  "vy (body_at px py pvx pvy r pc) = pvy"
  "ax (body_at px py pvx pvy r pc) = 0"
  "ay (body_at px py pvx pvy r pc) = 0"
  "radius (body_at px py pvx pvy r pc) = r"
  "inv_mass (body_at px py pvx pvy r pc) = 1"
  "restitution (body_at px py pvx pvy r pc) = 0.8"
  "group (body_at px py pvx pvy r pc) = 0"
  "spawn_cooldown (body_at px py pvx pvy r pc) = 0"
  "pop_chance (body_at px py pvx pvy r pc) = pc"
  "popped (body_at px py pvx pvy r pc) = False"
  by (simp_all add: body_at_def)

lemma visible_in_arena [simp]:
  "body_is_visible_vertical (body_at px 30 pvx pvy 5 pc) (Some arena)"
  "body_is_visible_vertical (body_at px 30 pvx pvy 6 pc) (Some arena)"
  by (simp_all add: body_is_visible_vertical_def arena_def Let_def)

text \<open>
  C6 (as the code has it). A pair that the inner loop does not skip, whose circles overlap,
  whose combined inverse mass is positive, whose bodies are not separating and both have pop
  chance 1, with a generator supplied: whatever the generator's state, the call draws once
  and sets the popped flag of the body with the smaller radius, of the first body on a
  tie, and leaves the flag of the other body as it was.
\<close>

theorem pop_eliminates_smaller_when_not_separating:
  assumes "\<not> popped b" "vis_a \<or> body_is_visible_vertical b bd"
    "spawn_cooldown a \<le> 0" "spawn_cooldown b \<le> 0"
    and contact: "pair_contact a b = Some (nx, ny, pen)"
    and inv: "0 < inv_mass a + inv_mass b"
    and appr: "vel_norm nx ny a b \<le> 0"
    and pc1: "pop_chance a = 1" "pop_chance b = 1"
  shows "case resolve_pair bd vis_a a b (Some r) of (a', b', r') \<Rightarrow>
           r' = Some (snd (rng_next_float01 r))
         \<and> (if radius a \<le> radius b then popped a' \<and> \<not> popped b'
            else popped b' \<and> (popped a' \<longleftrightarrow> popped a))"
proof -
  define a1 where "a1 = fst (positional_correction nx ny pen a b)"
  define b1 where "b1 = snd (positional_correction nx ny pen a b)"
  define a2 where "a2 = fst (impulse_response nx ny a1 b1)"
  define b2 where "b2 = snd (impulse_response nx ny a1 b1)"
  have res: "resolve_pair bd vis_a a b (Some r) = pop_logic a2 b2 (Some r)"
    using appr resolve_pair_resolved [OF assms(1-5) inv, of "Some r"]
    by (simp add: split_beta a1_def b1_def a2_def b2_def)
  have keep: "pop_chance a2 = 1" "pop_chance b2 = 1" "radius a2 = radius a"
    "radius b2 = radius b" "popped a2 = popped a" "popped b2 = popped b"
    using pc1 by (simp_all add: a1_def b1_def a2_def b2_def)
  show ?thesis
    using assms(1) by (simp add: res pop_logic_certain [OF keep(1,2)] keep)
qed

theorem pop_eliminates_smaller_when_not_separating_witness:
  "vel_norm 1 0 (body_at 60 30 1 0 5 1) (body_at 65 30 (- 1) 0 5 1) \<le> 0
   \<and> (case resolve_pair (Some arena) True (body_at 60 30 1 0 5 1) (body_at 65 30 (- 1) 0 5 1)
            (Some (rng_init 1))
        of (a', b', r') \<Rightarrow> popped a' \<and> \<not> popped b')
   \<and> (case resolve_pair (Some arena) True (body_at 60 30 1 0 6 1) (body_at 65 30 (- 1) 0 5 1)
            (Some (rng_init 1))
        of (a', b', r') \<Rightarrow> \<not> popped a' \<and> popped b')"
  using pop_eliminates_smaller_when_not_separating [where a = "body_at 60 30 1 0 5 1"
      and b = "body_at 65 30 (- 1) 0 5 1" and bd = "Some arena" and vis_a = True
      and nx = 1 and ny = 0 and pen = 5 and r = "rng_init 1"]
    pop_eliminates_smaller_when_not_separating [where a = "body_at 60 30 1 0 6 1"
      and b = "body_at 65 30 (- 1) 0 5 1" and bd = "Some arena" and vis_a = True
      and nx = 1 and ny = 0 and pen = 6 and r = "rng_init 1"]
    pair_contact_example [of 1 0 1 "- 1" 0 1]
    pair_contact_example_6_5 [of 1 0 1 "- 1" 0 1]
  by (simp add: vel_norm_def split_beta)

subsection \<open>The step on an array of two bodies\<close>

lemma upt_2:
  "[0..<2] = [0, Suc 0]" "[Suc 0..<2] = [Suc 0]" "[Suc 0 + 1..<2] = []" "[0 + 1..<2] = [Suc 0]"
  by (simp_all add: upt_rec)

text \<open>An array of two bodies: the only pair is (0, 1).\<close>

lemma physics_step_two:
  "0 < dt \<Longrightarrow>
   physics_step (Some [a, b]) 2 dt g bd r =
     (let a1 = integrate_body dt g bd a; b1 = integrate_body dt g bd b in
      if popped a1 then (Some [a1, b1], r)
      else (let (a2, b2, r2) = resolve_pair bd (body_is_visible_vertical a1 bd) a1 b1 r
            in (Some [a2, b2], r2)))"
  by (simp add: physics_step_def integrate_loop_def collide_loop_def collide_from_def
      collide_pair_def upt_2 Let_def split_beta)

lemma integrate_body_example:
  "integrate_body 1 0 (Some arena) (body_at 61 30 (- 1) 0 5 1) = body_at 60 30 (- 1) 0 5 1"
  "integrate_body 1 0 (Some arena) (body_at 64 30 1 0 5 1) = body_at 65 30 1 0 5 1"
  by (simp_all add: integrate_body_def integrate_motion_def wall_collisions_def
      decrement_cooldown_def body_at_def arena_def Let_def)

text \<open>
  Two bodies of pop chance 1 that overlap after integration while moving apart: the step
  pushes them apart to a centre distance of 10, pops neither and draws nothing.
\<close>

theorem separating_pair_not_popped:
  "physics_step (Some [body_at 61 30 (- 1) 0 5 1, body_at 64 30 1 0 5 1]) 2 1 0 (Some arena)
       (Some (rng_init 1))
     = (Some [body_at 57.5 30 (- 1) 0 5 1, body_at 67.5 30 1 0 5 1], Some (rng_init 1))
   \<and> \<not> popped (body_at 57.5 30 (- 1) 0 5 1) \<and> \<not> popped (body_at 67.5 30 1 0 5 1)"
proof -
  have "resolve_pair (Some arena) True (body_at 60 30 (- 1) 0 5 1) (body_at 65 30 1 0 5 1)
          (Some (rng_init 1))
        = (body_at 57.5 30 (- 1) 0 5 1, body_at 67.5 30 1 0 5 1, Some (rng_init 1))"
    using resolve_pair_resolved [where a = "body_at 60 30 (- 1) 0 5 1"
        and b = "body_at 65 30 1 0 5 1" and bd = "Some arena" and vis_a = True
        and nx = 1 and ny = 0 and pen = 5 and r = "Some (rng_init 1)"]
      pair_contact_example [of "- 1" 0 1 1 0 1]
    by (simp add: vel_norm_def positional_correction_def Let_def)
  then show ?thesis
    by (simp add: physics_step_two integrate_body_example)
qed

subsection \<open>Draws of the pop decision\<close>

lemma rng_next_float01_state: "snd (rng_next_float01 r) = snd (rng_next r)"
  by (simp add: rng_next_float01_def split_beta)

lemma rng_next_example: "snd (rng_next (rng_init 1)) = \<lparr> state = 1015568748 \<rparr>"
  by (simp add: rng_next_def rng_init_def Let_def)

text \<open>
  C2 (as the code has it). A pair that the inner loop does not skip, whose circles overlap,
  whose combined inverse mass is positive and whose bodies are not separating, with a
  generator supplied: the call advances the generator by exactly one step of
  \<^verbatim>\<open>rng_next\<close> when the mean pop chance is positive, whether or not a body is popped,
  and leaves the generator untouched when the mean pop chance is not positive.
\<close>

theorem pop_draw_only_for_positive_chance:
  assumes "\<not> popped b" "vis_a \<or> body_is_visible_vertical b bd"
    "spawn_cooldown a \<le> 0" "spawn_cooldown b \<le> 0"
    and contact: "pair_contact a b = Some (nx, ny, pen)"
    and inv: "0 < inv_mass a + inv_mass b"
    and appr: "vel_norm nx ny a b \<le> 0"
  shows "case resolve_pair bd vis_a a b (Some r) of (a', b', r') \<Rightarrow>
           r' = Some (if 0 < (pop_chance a + pop_chance b) * 0.5 then snd (rng_next r) else r)"
proof -
  define a1 where "a1 = fst (positional_correction nx ny pen a b)"
  define b1 where "b1 = snd (positional_correction nx ny pen a b)"
  define a2 where "a2 = fst (impulse_response nx ny a1 b1)"
  define b2 where "b2 = snd (impulse_response nx ny a1 b1)"
  have res: "resolve_pair bd vis_a a b (Some r) = pop_logic a2 b2 (Some r)"
    using appr resolve_pair_resolved [OF assms(1-5) inv, of "Some r"]
    by (simp add: split_beta a1_def b1_def a2_def b2_def)
  have keep: "pop_chance a2 = pop_chance a" "pop_chance b2 = pop_chance b"
    by (simp_all add: a1_def b1_def a2_def b2_def)
  show ?thesis
    using pop_logic_rng [of a2 b2 r]
    by (simp add: res keep split_beta rng_next_float01_state)
qed

theorem pop_draw_only_for_positive_chance_witness:
  "vel_norm 1 0 (body_at 60 30 1 0 5 0) (body_at 65 30 (- 1) 0 5 0) \<le> 0
   \<and> (case resolve_pair (Some arena) True (body_at 60 30 1 0 5 0) (body_at 65 30 (- 1) 0 5 0)
            (Some (rng_init 1))
        of (a', b', r') \<Rightarrow> r' = Some (rng_init 1))
   \<and> (case resolve_pair (Some arena) True (body_at 60 30 1 0 5 0.1) (body_at 65 30 (- 1) 0 5 0.1)
            (Some (rng_init 1))
        of (a', b', r') \<Rightarrow> r' = Some \<lparr> state = 1015568748 \<rparr>)"
  using pop_draw_only_for_positive_chance [where a = "body_at 60 30 1 0 5 0"
      and b = "body_at 65 30 (- 1) 0 5 0" and bd = "Some arena" and vis_a = True
      and nx = 1 and ny = 0 and pen = 5 and r = "rng_init 1"]
    pop_draw_only_for_positive_chance [where a = "body_at 60 30 1 0 5 0.1"
      and b = "body_at 65 30 (- 1) 0 5 0.1" and bd = "Some arena" and vis_a = True
      and nx = 1 and ny = 0 and pen = 5 and r = "rng_init 1"]
    pair_contact_example [of 1 0 0 "- 1" 0 0]
    pair_contact_example [of 1 0 "0.1" "- 1" 0 "0.1"]
  by (simp add: vel_norm_def split_beta rng_next_example)

lemma integrate_body_example_approaching:
  "integrate_body 1 0 (Some arena) (body_at 59 30 1 0 5 0) = body_at 60 30 1 0 5 0"
  "integrate_body 1 0 (Some arena) (body_at 66 30 (- 1) 0 5 0) = body_at 65 30 (- 1) 0 5 0"
  by (simp_all add: integrate_body_def integrate_motion_def wall_collisions_def
      decrement_cooldown_def body_at_def arena_def Let_def)

text \<open>
  Two approaching bodies of pop chance 0 that overlap after integration: the step resolves
  the collision and bounces them, and the generator is in the state it started in.
\<close>

theorem zero_pop_chance_draws_nothing:
  "physics_step (Some [body_at 59 30 1 0 5 0, body_at 66 30 (- 1) 0 5 0]) 2 1 0 (Some arena)
       (Some (rng_init 1))
     = (Some [body_at 57.5 30 (- 0.8) 0 5 0, body_at 67.5 30 0.8 0 5 0], Some (rng_init 1))
   \<and> snd (rng_next (rng_init 1)) \<noteq> rng_init 1"
proof -
  have "resolve_pair (Some arena) True (body_at 60 30 1 0 5 0) (body_at 65 30 (- 1) 0 5 0)
          (Some (rng_init 1))
        = (body_at 57.5 30 (- 0.8) 0 5 0, body_at 67.5 30 0.8 0 5 0, Some (rng_init 1))"
    using resolve_pair_resolved [where a = "body_at 60 30 1 0 5 0"
        and b = "body_at 65 30 (- 1) 0 5 0" and bd = "Some arena" and vis_a = True
        and nx = 1 and ny = 0 and pen = 5 and r = "Some (rng_init 1)"]
      pair_contact_example [of 1 0 0 "- 1" 0 0]
    by (simp add: vel_norm_def positional_correction_def impulse_response_def pop_logic_def
        Let_def)
  moreover have "snd (rng_next (rng_init 1)) \<noteq> rng_init 1"
    by (simp add: rng_next_def rng_init_def Let_def)
  ultimately show ?thesis
    by (simp add: physics_step_two integrate_body_example_approaching)
qed

section \<open>The loops of the physics step\<close>

lemma fold_invariant:
  assumes "P s" and "\<And>i t. i \<in> set xs \<Longrightarrow> P t \<Longrightarrow> P (f i t)"
  shows "P (fold f xs s)"
  using assms by (induction xs arbitrary: s) simp_all

lemma integrate_loop_length [simp]: "length (integrate_loop n dt g bd bs) = length bs"
  unfolding integrate_loop_def by (induction n) simp_all

lemma integrate_loop_nth:
  "i < length bs \<Longrightarrow>
   integrate_loop n dt g bd bs ! i = (if i < n then integrate_body dt g bd (bs ! i) else bs ! i)"
proof (induction n)
  case 0
  then show ?case by (simp add: integrate_loop_def)
next
  case (Suc n)
  have step: "integrate_loop (Suc n) dt g bd bs =
      (integrate_loop n dt g bd bs)[n := integrate_body dt g bd (integrate_loop n dt g bd bs ! n)]"
    by (simp add: integrate_loop_def)
  show ?case
  proof (cases "i = n")
    case True
    with Suc show ?thesis by (simp add: step)
  next
    case False
    with Suc show ?thesis by (simp add: step)
  qed
qed

subsection \<open>Frame of the step\<close>

lemma frame_kept_refl [simp]: "frame_kept b b"
  by (simp add: frame_kept_def)

lemma frame_kept_trans: "frame_kept a b \<Longrightarrow> frame_kept b c \<Longrightarrow> frame_kept a c"
  by (simp add: frame_kept_def)

lemma integrate_body_frame: "frame_kept b (integrate_body dt g bd b)"
  by (simp add: frame_kept_def integrate_body_def integrate_motion_def wall_collisions_def
      decrement_cooldown_def Let_def split: option.splits)

lemma pop_logic_frame:
  "frame_kept a (fst (pop_logic a b r))"
  "frame_kept b (fst (snd (pop_logic a b r)))"
  by (simp_all add: pop_logic_def frame_kept_def Let_def split_beta split: option.splits)

lemma positional_correction_frame:
  "frame_kept a (fst (positional_correction nx ny pen a b))"
  "frame_kept b (snd (positional_correction nx ny pen a b))"
  by (simp_all add: frame_kept_def)

lemma impulse_response_frame:
  "frame_kept a (fst (impulse_response nx ny a b))"
  "frame_kept b (snd (impulse_response nx ny a b))"
  by (simp_all add: frame_kept_def)

lemma bounce_and_pop_frame:
  fixes nx ny pen a b r
  defines "a1 \<equiv> fst (positional_correction nx ny pen a b)"
    and "b1 \<equiv> snd (positional_correction nx ny pen a b)"
  defines "a2 \<equiv> fst (impulse_response nx ny a1 b1)"
    and "b2 \<equiv> snd (impulse_response nx ny a1 b1)"
  shows "frame_kept a (fst (pop_logic a2 b2 r))"
    and "frame_kept b (fst (snd (pop_logic a2 b2 r)))"
proof -
  have "frame_kept a a2" "frame_kept b b2"
    by (simp_all add: frame_kept_def a1_def b1_def a2_def b2_def)
  then show "frame_kept a (fst (pop_logic a2 b2 r))"
    and "frame_kept b (fst (snd (pop_logic a2 b2 r)))"
    using pop_logic_frame [where a = a2 and b = b2 and r = r]
    by (blast intro: frame_kept_trans)+
qed

lemma resolve_pair_frame:
  "frame_kept a (fst (resolve_pair bd vis_a a b r))"
  "frame_kept b (fst (snd (resolve_pair bd vis_a a b r)))"
  by (simp_all add: resolve_pair_def Let_def split_beta positional_correction_frame
      bounce_and_pop_frame split: option.splits)

lemma resolve_pair_popped_b: "popped b \<Longrightarrow> resolve_pair bd vis_a a b r = (a, b, r)"
  by (simp add: resolve_pair_def)

lemma collide_pair_length [simp]:
  "length (fst (collide_pair bd vis_a i j st)) = length (fst st)"
  by (simp add: collide_pair_def split_beta)

lemma collide_pair_frame:
  assumes "k < length (fst st)"
  shows "frame_kept (fst st ! k) (fst (collide_pair bd vis_a i j st) ! k)"
proof -
  define bs where "bs = fst st"
  define res where "res = resolve_pair bd vis_a (bs ! i) (bs ! j) (snd st)"
  have eq: "fst (collide_pair bd vis_a i j st) = bs[i := fst res, j := fst (snd res)]"
    by (simp add: collide_pair_def split_beta bs_def res_def)
  have fa: "frame_kept (bs ! i) (fst res)" and fb: "frame_kept (bs ! j) (fst (snd res))"
    unfolding res_def by (rule resolve_pair_frame)+
  have k: "k < length bs" using assms by (simp add: bs_def)
  consider "k = j" | "k \<noteq> j" "k = i" | "k \<noteq> j" "k \<noteq> i" by blast
  then have "frame_kept (bs ! k) (bs[i := fst res, j := fst (snd res)] ! k)"
  proof cases
    case 1
    with k fb show ?thesis by simp
  next
    case 2
    with k fa show ?thesis by simp
  next
    case 3
    then show ?thesis by simp
  qed
  then show ?thesis by (simp add: eq bs_def)
qed

lemma collide_pair_popped_untouched:
  assumes "k < length (fst st)" "popped (fst st ! k)" "i \<noteq> k"
  shows "fst (collide_pair bd vis_a i j st) ! k = fst st ! k"
proof (cases "j = k")
  case True
  with assms(2) have "resolve_pair bd vis_a (fst st ! i) (fst st ! j) (snd st)
      = (fst st ! i, fst st ! j, snd st)"
    by (simp add: resolve_pair_popped_b)
  then show ?thesis
    using assms(1) True by (simp add: collide_pair_def split_beta)
next
  case False
  with assms(3) show ?thesis
    by (simp add: collide_pair_def split_beta)
qed

lemma collide_from_frame:
  "length (fst (collide_from bd n i st)) = length (fst st)
   \<and> (\<forall>k<length (fst st). frame_kept (fst st ! k) (fst (collide_from bd n i st) ! k))"
proof (cases "popped (fst st ! i)")
  case True
  then show ?thesis by (simp add: collide_from_def)
next
  case False
  define vis_a where "vis_a = body_is_visible_vertical (fst st ! i) bd"
  have "length (fst (fold (collide_pair bd vis_a i) [i + 1..<n] st)) = length (fst st)
      \<and> (\<forall>k<length (fst st).
            frame_kept (fst st ! k) (fst (fold (collide_pair bd vis_a i) [i + 1..<n] st) ! k))"
  proof (rule fold_invariant)
    show "length (fst st) = length (fst st)
        \<and> (\<forall>k<length (fst st). frame_kept (fst st ! k) (fst st ! k))"
      by simp
  next
    fix j and t :: "PhysicsBody list \<times> SimpleRng option"
    assume inv: "length (fst t) = length (fst st)
        \<and> (\<forall>k<length (fst st). frame_kept (fst st ! k) (fst t ! k))"
    show "length (fst (collide_pair bd vis_a i j t)) = length (fst st)
        \<and> (\<forall>k<length (fst st). frame_kept (fst st ! k) (fst (collide_pair bd vis_a i j t) ! k))"
      using inv collide_pair_frame [of _ t bd vis_a i j]
      by (auto intro: frame_kept_trans)
  qed
  with False show ?thesis
    by (simp add: collide_from_def vis_a_def Let_def)
qed

lemma collide_from_popped_untouched:
  assumes "k < length (fst st)" "popped (fst st ! k)"
  shows "length (fst (collide_from bd n i st)) = length (fst st)
       \<and> fst (collide_from bd n i st) ! k = fst st ! k"
proof (cases "popped (fst st ! i)")
  case True
  then show ?thesis by (simp add: collide_from_def)
next
  case False
  with assms(2) have ik: "i \<noteq> k" by auto
  define vis_a where "vis_a = body_is_visible_vertical (fst st ! i) bd"
  have "length (fst (fold (collide_pair bd vis_a i) [i + 1..<n] st)) = length (fst st)
      \<and> fst (fold (collide_pair bd vis_a i) [i + 1..<n] st) ! k = fst st ! k"
  proof (rule fold_invariant)
    show "length (fst st) = length (fst st) \<and> fst st ! k = fst st ! k"
      by simp
  next
    fix j and t :: "PhysicsBody list \<times> SimpleRng option"
    assume inv: "length (fst t) = length (fst st) \<and> fst t ! k = fst st ! k"
    then show "length (fst (collide_pair bd vis_a i j t)) = length (fst st)
        \<and> fst (collide_pair bd vis_a i j t) ! k = fst st ! k"
      using assms ik collide_pair_popped_untouched [of k t i bd vis_a j] by simp
  qed
  with False show ?thesis
    by (simp add: collide_from_def vis_a_def Let_def)
qed

lemma collide_loop_frame:
  "length (fst (collide_loop bd n st)) = length (fst st)
   \<and> (\<forall>k<length (fst st). frame_kept (fst st ! k) (fst (collide_loop bd n st) ! k))"
  unfolding collide_loop_def
proof (rule fold_invariant)
  show "length (fst st) = length (fst st)
      \<and> (\<forall>k<length (fst st). frame_kept (fst st ! k) (fst st ! k))"
    by simp
next
  fix i and t :: "PhysicsBody list \<times> SimpleRng option"
  assume inv: "length (fst t) = length (fst st)
      \<and> (\<forall>k<length (fst st). frame_kept (fst st ! k) (fst t ! k))"
  show "length (fst (collide_from bd n i t)) = length (fst st)
      \<and> (\<forall>k<length (fst st). frame_kept (fst st ! k) (fst (collide_from bd n i t) ! k))"
    using inv collide_from_frame [of bd n i t]
    by (auto intro: frame_kept_trans)
qed

lemma collide_loop_popped_untouched:
  assumes "k < length (fst st)" "popped (fst st ! k)"
  shows "length (fst (collide_loop bd n st)) = length (fst st)
       \<and> fst (collide_loop bd n st) ! k = fst st ! k"
  unfolding collide_loop_def
proof (rule fold_invariant)
  show "length (fst st) = length (fst st) \<and> fst st ! k = fst st ! k"
    by simp
next
  fix i and t :: "PhysicsBody list \<times> SimpleRng option"
  assume inv: "length (fst t) = length (fst st) \<and> fst t ! k = fst st ! k"
  then show "length (fst (collide_from bd n i t)) = length (fst st)
      \<and> fst (collide_from bd n i t) ! k = fst st ! k"
    using assms collide_from_popped_untouched [of k t bd n i] by simp
qed

lemma physics_step_running:
  "0 < dt \<Longrightarrow> 0 < n \<Longrightarrow>
   fst (physics_step (Some bs) n dt g bd r)
     = Some (fst (collide_loop bd n (integrate_loop n dt g bd bs, r)))"
  by (simp add: physics_step_def Let_def split_beta)

subsection \<open>Popped bodies\<close>

lemma integrate_body_popped:
  "popped b \<Longrightarrow> integrate_body dt g bd b = decrement_cooldown (wall_collisions bd b)"
  "popped b \<Longrightarrow> popped (integrate_body dt g bd b)"
  by (simp_all add: integrate_body_def integrate_motion_def wall_collisions_def
      decrement_cooldown_def Let_def split: option.splits)

lemma walls_and_cooldown_keep_vertical:
  "y (decrement_cooldown (wall_collisions bd b)) = y b"
  "vy (decrement_cooldown (wall_collisions bd b)) = vy b"
  "x (decrement_cooldown (wall_collisions None b)) = x b"
  "vx (decrement_cooldown (wall_collisions None b)) = vx b"
  by (simp_all add: wall_collisions_def decrement_cooldown_def Let_def split: option.splits)

text \<open>
  A popped body of inverse mass 1 that moves upwards at 60 per second: the step leaves it
  where it is, whereas integration over 0.03 s would move it from y = 30 to y = 28.2.
\<close>

theorem popped_body_stays_in_place:
  "popped ((body_at 60 30 0 (- 60) 3 1)\<lparr> popped := True \<rparr>)
   \<and> 0 < inv_mass ((body_at 60 30 0 (- 60) 3 1)\<lparr> popped := True \<rparr>)
   \<and> physics_step (Some [(body_at 60 30 0 (- 60) 3 1)\<lparr> popped := True \<rparr>]) 1 0.03 0
         (Some arena) (Some (rng_init 1))
       = (Some [(body_at 60 30 0 (- 60) 3 1)\<lparr> popped := True \<rparr>], Some (rng_init 1))
   \<and> y ((body_at 60 30 0 (- 60) 3 1)\<lparr> popped := True \<rparr>) = 30
   \<and> y (body_at 60 30 0 (- 60) 3 1) + (vy (body_at 60 30 0 (- 60) 3 1) + (0 + 0) * 0.03) * 0.03
       = 28.2"
  by (simp add: physics_step_def integrate_loop_def collide_loop_def collide_from_def
      integrate_body_def integrate_motion_def wall_collisions_def decrement_cooldown_def
      body_at_def arena_def Let_def)

text \<open>
  C1 (as the code has it). A popped body among the first \<open>count\<close> bodies is not integrated
  by a step with a positive time step: the step only clamps it against the horizontal walls
  and counts its cooldown down, so its vertical position and velocity are the old ones, and
  without bounds its horizontal position and velocity are too.
\<close>

theorem popped_body_not_integrated:
  assumes "0 < dt" "k < n" "n \<le> length bs" "popped (bs ! k)"
  shows "case fst (physics_step (Some bs) n dt g bd r) of
           None \<Rightarrow> False
         | Some bs' \<Rightarrow>
             bs' ! k = decrement_cooldown (wall_collisions bd (bs ! k))
           \<and> y (bs' ! k) = y (bs ! k) \<and> vy (bs' ! k) = vy (bs ! k)
           \<and> (bd = None \<longrightarrow> x (bs' ! k) = x (bs ! k) \<and> vx (bs' ! k) = vx (bs ! k))"
proof -
  define bs1 where "bs1 = integrate_loop n dt g bd bs"
  have k: "k < length bs" using assms(2,3) by simp
  have k1: "bs1 ! k = decrement_cooldown (wall_collisions bd (bs ! k))"
    using k assms(2,4) by (simp add: bs1_def integrate_loop_nth integrate_body_popped(1))
  have k2: "popped (bs1 ! k)"
    using k assms(2,4) by (simp add: bs1_def integrate_loop_nth integrate_body_popped(2))
  have "fst (collide_loop bd n (bs1, r)) ! k = bs1 ! k"
    using collide_loop_popped_untouched [of k "(bs1, r)" bd n] k k2
    by (simp add: bs1_def)
  moreover have "fst (physics_step (Some bs) n dt g bd r) = Some (fst (collide_loop bd n (bs1, r)))"
    using assms(1,2) by (simp add: physics_step_running bs1_def)
  ultimately show ?thesis
    by (auto simp: k1 walls_and_cooldown_keep_vertical)
qed

theorem popped_body_not_integrated_witness:
  "popped ([(body_at 60 30 0 (- 60) 3 1)\<lparr> popped := True \<rparr>] ! 0)
   \<and> (case fst (physics_step (Some [(body_at 60 30 0 (- 60) 3 1)\<lparr> popped := True \<rparr>]) 1 0.03 0
                  None (Some (rng_init 1))) of
        None \<Rightarrow> False
      | Some bs' \<Rightarrow> y (bs' ! 0) = 30 \<and> vy (bs' ! 0) = - 60 \<and> x (bs' ! 0) = 60)"
  using popped_body_not_integrated [where bs = "[(body_at 60 30 0 (- 60) 3 1)\<lparr> popped := True \<rparr>]"
      and k = 0 and n = 1 and dt = "0.03" and g = 0 and bd = None and r = "Some (rng_init 1)"]
  by (auto split: option.splits)

text \<open>
  C10. Whatever the arguments, \<^verbatim>\<open>physics_step\<close> returns an array of the same length in
  which every body has its radius, inverse mass, restitution, group and pop chance
  unchanged and is popped if it was popped before; \<^verbatim>\<open>bubble_respawn_body\<close> clears the
  popped flag of the body it is given.
\<close>

theorem physics_step_frame:
  "(case fst (physics_step (Some bs) n dt g bd r) of
      None \<Rightarrow> False
    | Some bs' \<Rightarrow>
        length bs' = length bs \<and> (\<forall>k<length bs. frame_kept (bs ! k) (bs' ! k)))
   \<and> (\<forall>i<length (bodies app). \<not> popped (bodies (bubble_respawn_body app i) ! i))"
proof -
  have respawn: "\<forall>i<length (bodies app). \<not> popped (bodies (bubble_respawn_body app i) ! i)"
    by (simp add: bubble_respawn_body_def Let_def split_beta)
  show ?thesis
  proof (cases "0 < dt \<and> 0 < n")
    case False
    then have "physics_step (Some bs) n dt g bd r = (Some bs, r)"
      by (auto simp: physics_step_def)
    with respawn show ?thesis by simp
  next
    case True
    define bs1 where "bs1 = integrate_loop n dt g bd bs"
    define bs2 where "bs2 = fst (collide_loop bd n (bs1, r))"
    have res: "fst (physics_step (Some bs) n dt g bd r) = Some bs2"
      using True by (simp add: physics_step_running bs1_def bs2_def)
    have len1: "length bs1 = length bs" by (simp add: bs1_def)
    have f1: "frame_kept (bs ! k) (bs1 ! k)" if "k < length bs" for k
      using that by (simp add: bs1_def integrate_loop_nth integrate_body_frame)
    have c: "length bs2 = length bs1 \<and> (\<forall>k<length bs1. frame_kept (bs1 ! k) (bs2 ! k))"
      using collide_loop_frame [of bd n "(bs1, r)"] by (simp add: bs2_def)
    have "frame_kept (bs ! k) (bs2 ! k)" if "k < length bs" for k
      using that f1 [OF that] c len1 by (auto intro: frame_kept_trans)
    with c len1 respawn show ?thesis by (simp add: res)
  qed
qed

theorem physics_step_frame_witness:
  "(case fst (physics_step (Some [body_at 59 30 1 0 5 1, body_at 66 30 (- 1) 0 5 1]) 2 1 0
               (Some arena) (Some (rng_init 1))) of
      None \<Rightarrow> False
    | Some bs' \<Rightarrow>
        length bs' = 2 \<and> radius (bs' ! 0) = 5 \<and> inv_mass (bs' ! 1) = 1
        \<and> frame_kept (body_at 66 30 (- 1) 0 5 1) (bs' ! 1))
   \<and> \<not> popped (bodies (bubble_respawn_body
          (app_with [(body_at 60 30 0 (- 60) 3 1)\<lparr> popped := True \<rparr>]) 0) ! 0)"
  using physics_step_frame [where bs = "[body_at 59 30 1 0 5 1, body_at 66 30 (- 1) 0 5 1]"
      and n = 2 and dt = 1 and g = 0 and bd = "Some arena" and r = "Some (rng_init 1)"
      and app = "app_with [(body_at 60 30 0 (- 60) 3 1)\<lparr> popped := True \<rparr>]"]
  by (auto simp: frame_kept_def app_with_def split: option.splits)

text \<open>
  C9. With a time step that is not positive, with a null array or with a count of 0,
  \<^verbatim>\<open>physics_step\<close> returns the array and the generator exactly as it received them.
\<close>

theorem physics_step_noop:
  "dt \<le> 0 \<or> bs = None \<or> n = 0 \<Longrightarrow> physics_step bs n dt g bd r = (bs, r)"
  by (auto simp: physics_step_def split: option.splits)

theorem physics_step_noop_witness:
  "physics_step (Some [body_at 59 30 1 0 5 1, body_at 66 30 (- 1) 0 5 1]) 2 0 0 (Some arena)
       (Some (rng_init 1))
     = (Some [body_at 59 30 1 0 5 1, body_at 66 30 (- 1) 0 5 1], Some (rng_init 1))
   \<and> physics_step (Some [body_at 59 30 1 0 5 1, body_at 66 30 (- 1) 0 5 1]) 2 (- 0.03) 0
         (Some arena) (Some (rng_init 1))
     = (Some [body_at 59 30 1 0 5 1, body_at 66 30 (- 1) 0 5 1], Some (rng_init 1))
   \<and> physics_step None 2 0.03 0 (Some arena) (Some (rng_init 1)) = (None, Some (rng_init 1))
   \<and> physics_step (Some [body_at 59 30 1 0 5 1]) 0 0.03 0 (Some arena) (Some (rng_init 1))
     = (Some [body_at 59 30 1 0 5 1], Some (rng_init 1))"
  using physics_step_noop [where dt = 0 and n = 2 and g = 0 and bd = "Some arena"
      and bs = "Some [body_at 59 30 1 0 5 1, body_at 66 30 (- 1) 0 5 1]"
      and r = "Some (rng_init 1)"]
    physics_step_noop [where dt = "- 0.03" and n = 2 and g = 0 and bd = "Some arena"
      and bs = "Some [body_at 59 30 1 0 5 1, body_at 66 30 (- 1) 0 5 1]"
      and r = "Some (rng_init 1)"]
    physics_step_noop [where dt = "0.03" and n = 2 and g = 0 and bd = "Some arena"
      and bs = None and r = "Some (rng_init 1)"]
    physics_step_noop [where dt = "0.03" and n = 0 and g = 0 and bd = "Some arena"
      and bs = "Some [body_at 59 30 1 0 5 1]" and r = "Some (rng_init 1)"]
  by simp

section \<open>Respawn\<close>

lemma bubble_respawn_body_frame [simp]:
  "bounds (bubble_respawn_body app i) = bounds app"
  "body_count (bubble_respawn_body app i) = body_count app"
  "groups (bubble_respawn_body app i) = groups app"
  "length (bodies (bubble_respawn_body app i)) = length (bodies app)"
  by (simp_all add: bubble_respawn_body_def Let_def split_beta)

lemma bubble_respawn_body_other:
  "j \<noteq> i \<Longrightarrow> bodies (bubble_respawn_body app i) ! j = bodies app ! j"
  by (simp add: bubble_respawn_body_def Let_def split_beta)

lemma lerp_between:
  fixes lo hi u :: real
  assumes "lo \<le> hi" "0 \<le> u" "u < 1"
  shows "lo \<le> lo + u * (hi - lo)" and "lo + u * (hi - lo) \<le> hi"
proof -
  have d: "0 \<le> hi - lo" using assms(1) by simp
  show "lo \<le> lo + u * (hi - lo)"
    using assms(2) d by simp
  have "u * (hi - lo) \<le> 1 * (hi - lo)"
    using assms(3) d by (intro mult_right_mono) simp_all
  then show "lo + u * (hi - lo) \<le> hi" by simp
qed

lemma bubble_respawn_body_self:
  assumes "i < length (bodies app)"
  shows "radius (bodies (bubble_respawn_body app i) ! i) = radius (bodies app ! i)"
    and "max_y (bounds app) + radius (bodies app ! i) + 40 \<le> y (bodies (bubble_respawn_body app i) ! i)"
    and "spawn_cooldown (bodies (bubble_respawn_body app i) ! i) = SPAWN_COOLDOWN_FRAMES"
    and "\<not> popped (bodies (bubble_respawn_body app i) ! i)"
  using assms rng_next_float01_range(1) [of "snd (rng_next_float01 (rng app))"]
  by (simp_all add: bubble_respawn_body_def Let_def split_beta)

text \<open>
  C7. A body of positive radius, at most half the arena width, after
  \<^verbatim>\<open>bubble_respawn_body\<close>: its horizontal position is between \<open>min_x + r\<close> and
  \<open>max_x - r\<close> inclusive, its vertical position is beyond \<open>max_y\<close> by at least the base
  offset \<open>r + 40\<close>, its spawn cooldown is \<^verbatim>\<open>SPAWN_COOLDOWN_FRAMES\<close>, which is 10, and its
  popped flag is clear.
\<close>

theorem respawn_placement:
  assumes "i < length (bodies app)"
    and "0 < radius (bodies app ! i)"
    and "2 * radius (bodies app ! i) \<le> max_x (bounds app) - min_x (bounds app)"
  shows "min_x (bounds app) + radius (bodies app ! i) \<le> x (bodies (bubble_respawn_body app i) ! i)
       \<and> x (bodies (bubble_respawn_body app i) ! i) \<le> max_x (bounds app) - radius (bodies app ! i)
       \<and> max_y (bounds app) + (radius (bodies app ! i) + 40) \<le> y (bodies (bubble_respawn_body app i) ! i)
       \<and> max_y (bounds app) < y (bodies (bubble_respawn_body app i) ! i)
       \<and> spawn_cooldown (bodies (bubble_respawn_body app i) ! i) = SPAWN_COOLDOWN_FRAMES
       \<and> SPAWN_COOLDOWN_FRAMES = 10
       \<and> \<not> popped (bodies (bubble_respawn_body app i) ! i)"
proof -
  define r where "r = radius (bodies app ! i)"
  define lo where "lo = min_x (bounds app) + r"
  define hi where "hi = max_x (bounds app) - r"
  define u where "u = fst (rng_next_float01 (rng app))"
  have xeq: "x (bodies (bubble_respawn_body app i) ! i) = lo + u * (hi - lo)"
    using assms(1)
    by (simp add: bubble_respawn_body_def Let_def split_beta lo_def hi_def u_def r_def)
  have "lo \<le> hi" using assms(3) by (simp add: lo_def hi_def r_def)
  moreover have "0 \<le> u" "u < 1"
    by (simp_all add: u_def rng_next_float01_range)
  ultimately have "lo \<le> lo + u * (hi - lo)" "lo + u * (hi - lo) \<le> hi"
    by (rule lerp_between)+
  moreover have "max_y (bounds app) + r + 40 \<le> y (bodies (bubble_respawn_body app i) ! i)"
    using bubble_respawn_body_self(2) [OF assms(1)] by (simp add: r_def)
  moreover have "0 < r" using assms(2) by (simp add: r_def)
  ultimately show ?thesis
    using bubble_respawn_body_self(3,4) [OF assms(1)]
    by (simp add: xeq lo_def hi_def SPAWN_COOLDOWN_FRAMES_def flip: r_def)
qed

theorem respawn_placement_witness:
  "0 < radius (bodies (app_with [body_at 64 (- 30) 0 (- 60) 3 1]) ! 0)
   \<and> 3 \<le> x (bodies (bubble_respawn_body (app_with [body_at 64 (- 30) 0 (- 60) 3 1]) 0) ! 0)
   \<and> x (bodies (bubble_respawn_body (app_with [body_at 64 (- 30) 0 (- 60) 3 1]) 0) ! 0) \<le> 124
   \<and> 106 \<le> y (bodies (bubble_respawn_body (app_with [body_at 64 (- 30) 0 (- 60) 3 1]) 0) ! 0)
   \<and> spawn_cooldown (bodies (bubble_respawn_body (app_with [body_at 64 (- 30) 0 (- 60) 3 1]) 0) ! 0)
       = 10
   \<and> \<not> popped (bodies (bubble_respawn_body (app_with [body_at 64 (- 30) 0 (- 60) 3 1]) 0) ! 0)"
  using respawn_placement [where app = "app_with [body_at 64 (- 30) 0 (- 60) 3 1]" and i = 0]
  by (simp add: app_with_def arena_def)

section \<open>The respawn loops of the run loop\<close>

text \<open>
  A loop over the indices whose step \<open>f i\<close> writes body \<open>i\<close> only: body \<open>k\<close> of the
  result is what step \<open>k\<close> made of it, in a state where body \<open>k\<close> and the bounds were
  still the initial ones.
\<close>

lemma index_pass_body:
  fixes f :: "nat \<Rightarrow> BubbleApp \<Rightarrow> BubbleApp"
  assumes frame: "\<And>i t. bounds (f i t) = bounds t \<and> length (bodies (f i t)) = length (bodies t)"
    and other: "\<And>i j t. j \<noteq> i \<Longrightarrow> bodies (f i t) ! j = bodies t ! j"
    and k: "k < n"
  shows "\<exists>t. bounds t = bounds app \<and> length (bodies t) = length (bodies app)
           \<and> bodies t ! k = bodies app ! k
           \<and> bodies (fold f [0..<n] app) ! k = bodies (f k t) ! k
           \<and> bounds (fold f [0..<n] app) = bounds app"
proof -
  define t where "t = fold f [0..<k] app"
  have split: "[0..<n] = [0..<k] @ k # [Suc k..<n]"
  proof -
    have "[0..<k + (n - k)] = [0..<k] @ [k..<k + (n - k)]"
      by (rule upt_add_eq_append) simp
    moreover have "[k..<n] = k # [Suc k..<n]"
      using k by (rule upt_conv_Cons)
    ultimately show ?thesis using k by simp
  qed
  have t: "bounds t = bounds app \<and> length (bodies t) = length (bodies app)
      \<and> bodies t ! k = bodies app ! k"
    unfolding t_def
  proof (rule fold_invariant)
    show "bounds app = bounds app \<and> length (bodies app) = length (bodies app)
        \<and> bodies app ! k = bodies app ! k"
      by simp
  next
    fix i and u :: BubbleApp
    assume "i \<in> set [0..<k]"
      and "bounds u = bounds app \<and> length (bodies u) = length (bodies app)
        \<and> bodies u ! k = bodies app ! k"
    then show "bounds (f i u) = bounds app \<and> length (bodies (f i u)) = length (bodies app)
        \<and> bodies (f i u) ! k = bodies app ! k"
      using frame [of i u] other [of k i u] by simp
  qed
  have rest: "bounds (fold f [Suc k..<n] (f k t)) = bounds (f k t)
      \<and> bodies (fold f [Suc k..<n] (f k t)) ! k = bodies (f k t) ! k"
  proof (rule fold_invariant)
    show "bounds (f k t) = bounds (f k t) \<and> bodies (f k t) ! k = bodies (f k t) ! k"
      by simp
  next
    fix i and u :: BubbleApp
    assume "i \<in> set [Suc k..<n]"
      and "bounds u = bounds (f k t) \<and> bodies u ! k = bodies (f k t) ! k"
    then show "bounds (f i u) = bounds (f k t) \<and> bodies (f i u) ! k = bodies (f k t) ! k"
      using frame [of i u] other [of k i u] by simp
  qed
  have "fold f [0..<n] app = fold f [Suc k..<n] (f k t)"
    by (simp add: split t_def)
  with t rest frame [of k t] show ?thesis by auto
qed

lemma index_pass_frame:
  fixes f :: "nat \<Rightarrow> BubbleApp \<Rightarrow> BubbleApp"
  assumes "\<And>i t. bounds (f i t) = bounds t \<and> length (bodies (f i t)) = length (bodies t)
             \<and> body_count (f i t) = body_count t"
  shows "bounds (fold f xs app) = bounds app \<and> length (bodies (fold f xs app)) = length (bodies app)
       \<and> body_count (fold f xs app) = body_count app"
proof (rule fold_invariant)
  show "bounds app = bounds app \<and> length (bodies app) = length (bodies app)
      \<and> body_count app = body_count app"
    by simp
next
  fix i and u :: BubbleApp
  assume "bounds u = bounds app \<and> length (bodies u) = length (bodies app)
      \<and> body_count u = body_count app"
  then show "bounds (f i u) = bounds app \<and> length (bodies (f i u)) = length (bodies app)
      \<and> body_count (f i u) = body_count app"
    using assms [of i u] by simp
qed

lemma respawn_if_offtop_frame:
  "bounds (respawn_if_offtop i t) = bounds t
   \<and> length (bodies (respawn_if_offtop i t)) = length (bodies t)
   \<and> body_count (respawn_if_offtop i t) = body_count t"
  by (simp add: respawn_if_offtop_def Let_def)

lemma respawn_if_offtop_other:
  "j \<noteq> i \<Longrightarrow> bodies (respawn_if_offtop i t) ! j = bodies t ! j"
  by (simp add: respawn_if_offtop_def Let_def bubble_respawn_body_other)

lemma respawn_if_popped_frame:
  "bounds (respawn_if_popped i t) = bounds t
   \<and> length (bodies (respawn_if_popped i t)) = length (bodies t)
   \<and> body_count (respawn_if_popped i t) = body_count t"
  by (simp add: respawn_if_popped_def)

lemma respawn_if_popped_other:
  "j \<noteq> i \<Longrightarrow> bodies (respawn_if_popped i t) ! j = bodies t ! j"
  by (simp add: respawn_if_popped_def bubble_respawn_body_other)

lemma respawn_offtop_pass_frame:
  "bounds (respawn_offtop_pass app) = bounds app
   \<and> length (bodies (respawn_offtop_pass app)) = length (bodies app)
   \<and> body_count (respawn_offtop_pass app) = body_count app"
  unfolding respawn_offtop_pass_def
  by (rule index_pass_frame) (rule respawn_if_offtop_frame)

lemma respawn_popped_pass_frame:
  "bounds (respawn_popped_pass app) = bounds app
   \<and> length (bodies (respawn_popped_pass app)) = length (bodies app)
   \<and> body_count (respawn_popped_pass app) = body_count app"
  unfolding respawn_popped_pass_def
  by (rule index_pass_frame) (rule respawn_if_popped_frame)

text \<open>What each respawn loop does to one body: it is respawned or it is left as it was.\<close>

lemma respawn_offtop_pass_body:
  assumes "k < body_count app" "k < length (bodies app)"
  shows "if y (bodies app ! k) + radius (bodies app ! k) < min_y (bounds app) - 20
         then max_y (bounds app) + radius (bodies app ! k) + 40
                \<le> y (bodies (respawn_offtop_pass app) ! k)
         else bodies (respawn_offtop_pass app) ! k = bodies app ! k"
proof -
  obtain t where t: "bounds t = bounds app" "length (bodies t) = length (bodies app)"
      "bodies t ! k = bodies app ! k"
      "bodies (respawn_offtop_pass app) ! k = bodies (respawn_if_offtop k t) ! k"
    unfolding respawn_offtop_pass_def
    using index_pass_body [of respawn_if_offtop k "body_count app" app, OF _ _ assms(1)]
      respawn_if_offtop_frame respawn_if_offtop_other
    by blast
  have "k < length (bodies t)" using assms(2) t(2) by simp
  from bubble_respawn_body_self(2) [OF this] t show ?thesis
    by (simp add: respawn_if_offtop_def Let_def)
qed

lemma respawn_popped_pass_body:
  assumes "k < body_count app" "k < length (bodies app)"
  shows "if popped (bodies app ! k)
         then max_y (bounds app) + radius (bodies app ! k) + 40
                \<le> y (bodies (respawn_popped_pass app) ! k)
              \<and> radius (bodies (respawn_popped_pass app) ! k) = radius (bodies app ! k)
         else bodies (respawn_popped_pass app) ! k = bodies app ! k"
proof -
  obtain t where t: "bounds t = bounds app" "length (bodies t) = length (bodies app)"
      "bodies t ! k = bodies app ! k"
      "bodies (respawn_popped_pass app) ! k = bodies (respawn_if_popped k t) ! k"
    unfolding respawn_popped_pass_def
    using index_pass_body [of respawn_if_popped k "body_count app" app, OF _ _ assms(1)]
      respawn_if_popped_frame respawn_if_popped_other
    by blast
  have "k < length (bodies t)" using assms(2) t(2) by simp
  from bubble_respawn_body_self(1,2) [OF this] t show ?thesis
    by (simp add: respawn_if_popped_def)
qed

text \<open>
  The body of the scenario, bottom edge exactly 20 above the top of the arena: neither the
  off-top loop nor the whole lifecycle pass moves it, and it stays above the arena.
\<close>

theorem offtop_boundary_body_left_in_place:
  "y (bodies (respawn_offtop_pass (app_with [body_at 64 (- 25) 0 (- 60) 5 1])) ! 0) = - 25
   \<and> y (bodies (lifecycle_pass (app_with [body_at 64 (- 25) 0 (- 60) 5 1])) ! 0) = - 25
   \<and> min_y (bounds (app_with [body_at 64 (- 25) 0 (- 60) 5 1])) = 0
   \<and> max_y (bounds (app_with [body_at 64 (- 25) 0 (- 60) 5 1])) = 63"
  by (simp add: lifecycle_pass_def respawn_offtop_pass_def respawn_popped_pass_def
      respawn_if_offtop_def respawn_if_popped_def app_with_def arena_def Let_def)

text \<open>
  C3 (as the code has it). A body of radius 5 whose centre is strictly above y = -25, in an
  arena with \<open>min_y = 0\<close>: the off-top loop of the run loop respawns it, and after that
  loop, and after the whole lifecycle pass of a tick, its y coordinate is at least
  \<open>max_y\<close> (in fact at least \<open>max_y + 45\<close>).
\<close>

theorem offtop_body_respawned_at_bottom:
  assumes "k < body_count app" "body_count app \<le> length (bodies app)"
    and "radius (bodies app ! k) = 5" "y (bodies app ! k) < - 25" "min_y (bounds app) = 0"
  shows "max_y (bounds app) + 45 \<le> y (bodies (respawn_offtop_pass app) ! k)
       \<and> max_y (bounds app) \<le> y (bodies (respawn_offtop_pass app) ! k)
       \<and> max_y (bounds app) \<le> y (bodies (lifecycle_pass app) ! k)"
proof -
  have k: "k < length (bodies app)" using assms(1,2) by simp
  have off: "max_y (bounds app) + 45 \<le> y (bodies (respawn_offtop_pass app) ! k)"
    using respawn_offtop_pass_body [OF assms(1) k] assms(3-5) by simp
  define app1 where "app1 = respawn_popped_pass app"
  have fr: "bounds app1 = bounds app" "length (bodies app1) = length (bodies app)"
      "body_count app1 = body_count app"
    using respawn_popped_pass_frame [of app] by (simp_all add: app1_def)
  have k1: "k < body_count app1" "k < length (bodies app1)"
    using assms(1) k fr by simp_all
  have b1: "radius (bodies app1 ! k) = 5"
    and y1: "y (bodies app1 ! k) < - 25 \<or> max_y (bounds app) + 45 \<le> y (bodies app1 ! k)"
    using respawn_popped_pass_body [OF assms(1) k] assms(3,4)
    by (auto simp: app1_def split: if_splits)
  have "max_y (bounds app) + 45 \<le> y (bodies (respawn_offtop_pass app1) ! k)"
    using respawn_offtop_pass_body [OF k1] b1 y1 assms(5) fr(1)
    by (auto split: if_splits)
  then have "max_y (bounds app) \<le> y (bodies (lifecycle_pass app) ! k)"
    by (simp add: lifecycle_pass_def app1_def)
  with off show ?thesis by simp
qed

theorem offtop_body_respawned_at_bottom_witness:
  "y (bodies (app_with [body_at 64 (- 26) 0 (- 60) 5 1]) ! 0) < - 25
   \<and> 108 \<le> y (bodies (respawn_offtop_pass (app_with [body_at 64 (- 26) 0 (- 60) 5 1])) ! 0)
   \<and> 63 \<le> y (bodies (lifecycle_pass (app_with [body_at 64 (- 26) 0 (- 60) 5 1])) ! 0)"
  using offtop_body_respawned_at_bottom [where app = "app_with [body_at 64 (- 26) 0 (- 60) 5 1]"
      and k = 0]
  by (simp add: app_with_def arena_def)

section \<open>Penetration after a whole step\<close>

lemma upt_3:
  "[0..<3] = [0, Suc 0, 2]" "[Suc 0..<3] = [Suc 0, 2]" "[2..<3] = [2]" "[3..<3] = []"
  "[0 + 1..<3] = [Suc 0, 2]" "[Suc 0 + 1..<3] = [2]" "[2 + 1..<3] = []"
  "[Suc (Suc 0)..<3] = [2]"
  by (simp_all add: upt_rec numeral_3_eq_3 numeral_2_eq_2)

lemma integrate_body_at_rest:
  "r \<le> px \<Longrightarrow> px + r \<le> 127 \<Longrightarrow>
   integrate_body 1 0 (Some arena) (body_at px py 0 0 r pc) = body_at px py 0 0 r pc"
  by (simp add: integrate_body_def integrate_motion_def wall_collisions_def
      decrement_cooldown_def body_at_def arena_def Let_def)

lemma resolve_pair_at_rest_example:
  "resolve_pair (Some arena) True (body_at 60 30 0 0 5 0) (body_at 65 30 0 0 5 0) (Some (rng_init 1))
     = (body_at (115 / 2) 30 0 0 5 0, body_at (135 / 2) 30 0 0 5 0, Some (rng_init 1))"
  using resolve_pair_resolved [where a = "body_at 60 30 0 0 5 0"
      and b = "body_at 65 30 0 0 5 0" and bd = "Some arena" and vis_a = True
      and nx = 1 and ny = 0 and pen = 5 and r = "Some (rng_init 1)"]
    pair_contact_example [of 0 0 0 0 0 0]
  by (simp add: vel_norm_def positional_correction_def impulse_response_def pop_logic_def
      Let_def)

lemma pair_contact_example_left:
  "pair_contact (body_at (115 / 2) 30 0 0 5 0) (body_at (105 / 2) 30 0 0 5 0) = Some (- 1, 0, 5)"
  by (simp add: pair_contact_def body_at_def ph_len2_def Let_def sqrt_25)

lemma resolve_pair_at_rest_example_left:
  "resolve_pair (Some arena) True (body_at (115 / 2) 30 0 0 5 0) (body_at (105 / 2) 30 0 0 5 0)
       (Some (rng_init 1))
     = (body_at 60 30 0 0 5 0, body_at 50 30 0 0 5 0, Some (rng_init 1))"
  using resolve_pair_resolved [where a = "body_at (115 / 2) 30 0 0 5 0"
      and b = "body_at (105 / 2) 30 0 0 5 0" and bd = "Some arena" and vis_a = True
      and nx = "- 1" and ny = 0 and pen = 5 and r = "Some (rng_init 1)"]
    pair_contact_example_left
  by (simp add: vel_norm_def positional_correction_def impulse_response_def pop_logic_def
      Let_def)

lemma resolve_pair_apart_example:
  "resolve_pair (Some arena) True (body_at (135 / 2) 30 0 0 5 0) (body_at 50 30 0 0 5 0)
       (Some (rng_init 1))
     = (body_at (135 / 2) 30 0 0 5 0, body_at 50 30 0 0 5 0, Some (rng_init 1))"
  by (simp add: resolve_pair_def pair_contact_def body_is_visible_vertical_def arena_def
      ph_len2_def Let_def)

lemma three_body_step_example:
  "physics_step (Some [body_at 60 30 0 0 5 0, body_at 65 30 0 0 5 0, body_at (105 / 2) 30 0 0 5 0])
       3 1 0 (Some arena) (Some (rng_init 1))
     = (Some [body_at 60 30 0 0 5 0, body_at (135 / 2) 30 0 0 5 0, body_at 50 30 0 0 5 0],
        Some (rng_init 1))"
  by (simp add: physics_step_def integrate_loop_def collide_loop_def collide_from_def
      collide_pair_def upt_3 integrate_body_at_rest resolve_pair_at_rest_example
      resolve_pair_at_rest_example_left resolve_pair_apart_example Let_def)

lemma resolve_pair_cooldown_example:
  "resolve_pair bd v ((body_at 60 30 0 0 5 0)\<lparr> spawn_cooldown := 4 \<rparr>) (body_at 65 30 0 0 5 0) r
     = ((body_at 60 30 0 0 5 0)\<lparr> spawn_cooldown := 4 \<rparr>, body_at 65 30 0 0 5 0, r)"
  by (simp add: resolve_pair_def Let_def)

lemma integrate_body_cooldown_example:
  "integrate_body 1 0 (Some arena) ((body_at 60 30 0 0 5 0)\<lparr> spawn_cooldown := 5 \<rparr>)
     = (body_at 60 30 0 0 5 0)\<lparr> spawn_cooldown := 4 \<rparr>"
  by (simp add: integrate_body_def integrate_motion_def wall_collisions_def
      decrement_cooldown_def body_at_def arena_def Let_def)

lemma cooldown_step_example:
  "physics_step
       (Some [(body_at 60 30 0 0 5 0)\<lparr> spawn_cooldown := 5 \<rparr>, body_at 65 30 0 0 5 0])
       2 1 0 (Some arena) (Some (rng_init 1))
     = (Some [(body_at 60 30 0 0 5 0)\<lparr> spawn_cooldown := 4 \<rparr>, body_at 65 30 0 0 5 0],
        Some (rng_init 1))"
  by (simp add: physics_step_two integrate_body_at_rest integrate_body_cooldown_example
      resolve_pair_cooldown_example Let_def)




section \<open>The velocity response in single precision\<close>

lemma fl32_zero [simp]: "fl32 0 = 0"
  by (simp add: fl32_def)

text \<open>Evaluation of \<^const>\<open>fl32\<close>: scale the value to a 24-bit significand and round it.\<close>

lemma fl32_scaled:
  assumes lo: "2 ^ 23 \<le> \<bar>v\<bar> * 2 ^ n" and hi: "\<bar>v\<bar> * 2 ^ n < 2 ^ 24"
  shows "fl32 v = of_int (round_even (v * 2 ^ n)) / 2 ^ n"
proof -
  have v: "v \<noteq> 0" using lo by auto
  define k :: int where "k = 23 - int n"
  have pk: "2 powr (of_int k) = 2 ^ 23 / (2 ^ n :: real)"
    by (simp add: k_def powr_diff powr_realpow flip: powr_numeral)
  have pk1: "2 powr (of_int k + 1) = 2 ^ 24 / (2 ^ n :: real)"
    unfolding powr_add pk by simp
  have "2 powr (of_int k) \<le> \<bar>v\<bar>"
    unfolding pk using lo by (simp add: field_simps)
  moreover have "\<bar>v\<bar> < 2 powr (of_int k + 1)"
    unfolding pk1 using hi by (simp add: field_simps)
  ultimately have "\<lfloor>log 2 \<bar>v\<bar>\<rfloor> = k"
    using v by (subst floor_log_eq_powr_iff) simp_all
  moreover have "2 powr (of_int k - 23) = 1 / (2 ^ n :: real)"
    by (simp add: k_def powr_minus_divide powr_realpow)
  ultimately show ?thesis
    using v by (simp add: fl32_def Let_def)
qed

lemmas fl32_at =
  fl32_scaled [where n = 17]
  fl32_scaled [where n = 18]
  fl32_scaled [where n = 19]
  fl32_scaled [where n = 20]
  fl32_scaled [where n = 21]
  fl32_scaled [where n = 22]
  fl32_scaled [where n = 23]
  fl32_scaled [where n = 24]
  fl32_scaled [where n = 40]
  fl32_scaled [where n = 41]
  fl32_scaled [where n = 42]
  fl32_scaled [where n = 43]

text \<open>The roundings that occur on the grazing pair.\<close>

lemma grazing_roundings:
  "fl32 (3) = 3"
  "fl32 (4) = 4"
  "fl32 (10) = 10"
  "fl32 (9) = 9"
  "fl32 (16) = 16"
  "fl32 (25) = 25"
  "fl32 (1 / 100000) = 2748779 / 274877906944"
  "fl32 (100) = 100"
  "fl32 (5) = 5"
  "fl32 (3 / 5) = 5033165 / 8388608"
  "fl32 (4 / 5) = 13421773 / 16777216"
  "fl32 (- (786433 / 262144)) = - (786433 / 262144)"
  "fl32 (5033165 / 2097152) = 5033165 / 2097152"
  "fl32 (- (10555325205709 / 4398046511104)) = - (10066343 / 4194304)"
  "fl32 (- (13 / 4194304)) = - (13 / 4194304)"
  "fl32 (2) = 2"
  "fl32 (3 / 2) = 3 / 2"
  "fl32 (3 / 4) = 3 / 4"
  "fl32 (7 / 4) = 7 / 4"
  "fl32 (91 / 16777216) = 91 / 16777216"
  "fl32 (91 / 33554432) = 91 / 33554432"
  "fl32 (458018015 / 281474976710656) = 14313063 / 8796093022208"
  "fl32 (1221381343 / 562949953421312) = 4771021 / 2199023255552"
  "fl32 (14313063 / 8796093022208) = 14313063 / 8796093022208"
  "fl32 (- (14313063 / 8796093022208)) = - (14313063 / 8796093022208)"
  "fl32 (4771021 / 2199023255552) = 4771021 / 2199023255552"
  "fl32 (- (131941400104141 / 2199023255552)) = - (15728641 / 262144)"
  "fl32 (35184386401895 / 8796093022208) = 8388611 / 2097152"
  "fl32 (- (138538468717363 / 2199023255552)) = - 63"
  "fl32 (35184398984807 / 8796093022208) = 4194307 / 1048576"
  "fl32 (- (786431 / 262144)) = - (786431 / 262144)"
  "fl32 (21110639191655 / 8796093022208) = 10066337 / 4194304"
  "fl32 (- (10555298362163 / 4398046511104)) = - (10066317 / 4194304)"
  "fl32 (5 / 1048576) = 5 / 1048576"
  by (simp_all add: fl32_at round_even_def)

lemma grazing_contact:
  "pair_contact_f32 grazing_a grazing_b = Some (5033165 / 8388608, 13421773 / 16777216, 5)"
  by (simp add: pair_contact_f32_def ph_len2_f32_def grazing_a_def grazing_b_def Let_def
      sqrt_25 grazing_roundings)

lemma grazing_vel_norm:
  "vel_norm_f32 (5033165 / 8388608) (13421773 / 16777216) grazing_a grazing_b = - (13 / 4194304)"
  by (simp add: vel_norm_f32_def grazing_a_def grazing_b_def Let_def grazing_roundings)

lemma grazing_impulse:
  "impulse_response_f32 (5033165 / 8388608) (13421773 / 16777216) grazing_a grazing_b
     = (grazing_a\<lparr> vx := - (14313063 / 8796093022208), vy := - (15728641 / 262144) \<rparr>,
        grazing_b\<lparr> vx := 8388611 / 2097152, vy := - 63 \<rparr>)"
  by (simp add: impulse_response_f32_def grazing_vel_norm Let_def)
     (simp add: grazing_a_def grazing_b_def grazing_roundings)

lemma grazing_vel_norm_after:
  "vel_norm_f32 (5033165 / 8388608) (13421773 / 16777216)
     (grazing_a\<lparr> vx := - (14313063 / 8796093022208), vy := - (15728641 / 262144) \<rparr>)
     (grazing_b\<lparr> vx := 8388611 / 2097152, vy := - 63 \<rparr>) = 5 / 1048576"
  by (simp add: vel_norm_f32_def grazing_a_def grazing_b_def Let_def grazing_roundings)

lemma grazing_contact_exact:
  "pair_contact grazing_a grazing_b = Some (3 / 5, 4 / 5, 5)"
  by (simp add: pair_contact_def grazing_a_def grazing_b_def ph_len2_def Let_def sqrt_25)


end
